theory Spec2Isabelle
  imports Main "HOL-Library.Multiset" "HOL-Library.List_Lexorder"
begin

section \<open>Python values used by the two scripts\<close>

text \<open>
  A Python \<open>str\<close> is a sequence of Unicode code points, and \<open>len\<close>, \<open>in\<close>, \<open>split\<close>,
  \<open>strip\<close> and the comparison operators all work on code points. A string is therefore
  a list of code points; \<open><\<close> and \<open>\<le>\<close> on such lists are the lexicographic order, which
  is Python's order on \<open>str\<close>. \<open>str\<close> embeds an ASCII literal.
\<close>

type_synonym pystr = "nat list"

definition str :: "string \<Rightarrow> pystr" where
  "str s = map of_char s"

text \<open>The two separators of a score cell: U+2013 (en-dash) and U+002D (ASCII hyphen).\<close>

definition en_dash :: nat where
  "en_dash = 8211"

definition hyphen :: nat where
  "hyphen = 45"

text \<open>The exceptions that the modelled statements can raise.\<close>

datatype py_exn = KeyError | IndexError | ValueError | AttributeError

text \<open>\<open>xs[i]\<close> for a non-negative index, and \<open>xs[-1]\<close>.\<close>

definition py_index :: "'a list \<Rightarrow> nat \<Rightarrow> py_exn + 'a" where
  "py_index xs i = (if i < length xs then Inr (xs ! i) else Inl IndexError)"

definition py_last :: "'a list \<Rightarrow> py_exn + 'a" where
  "py_last xs = (case xs of [] \<Rightarrow> Inl IndexError | _ # _ \<Rightarrow> Inr (last xs))"

text \<open>
  \<open>a, b = xs\<close>: unpacking into two names raises \<open>ValueError\<close> unless \<open>xs\<close> has exactly
  two elements.
\<close>

definition unpack2 :: "'a list \<Rightarrow> py_exn + ('a \<times> 'a)" where
  "unpack2 xs = (case xs of [a, b] \<Rightarrow> Inr (a, b) | _ \<Rightarrow> Inl ValueError)"

text \<open>\<open>s.split(sep)\<close> for a separator of one code point: every occurrence splits.\<close>

fun split :: "pystr \<Rightarrow> nat \<Rightarrow> pystr list" where
  "split [] sep = [[]]"
| "split (c # cs) sep =
     (if c = sep then [] # split cs sep
      else (case split cs sep of [] \<Rightarrow> [[c]] | p # ps \<Rightarrow> (c # p) # ps))"

text \<open>
  \<open>str.isspace\<close> of one code point, the characters \<open>str.strip()\<close> removes (Unicode 14,
  the table of CPython 3.11).
\<close>

definition py_isspace :: "nat \<Rightarrow> bool" where
  "py_isspace c \<longleftrightarrow>
     c \<in> set [9, 10, 11, 12, 13, 28, 29, 30, 31, 32, 133, 160, 5760, 8192, 8193, 8194,
              8195, 8196, 8197, 8198, 8199, 8200, 8201, 8202, 8232, 8233, 8239, 8287, 12288]"

definition strip :: "pystr \<Rightarrow> pystr" where
  "strip s = rev (dropWhile py_isspace (rev (dropWhile py_isspace s)))"

text \<open>
  \<open>int(s)\<close> on a \<open>str\<close>, base 10. Whitespace at both ends is skipped; \<open>int\<close> skips
  what \<open>strip\<close> removes except the four separators U+001C to U+001F. Then comes an
  optional sign \<open>+\<close> or \<open>-\<close>, then decimal digits in groups separated by single
  underscores, no group empty. A decimal digit is any code point of Unicode category Nd;
  these come in runs of ten, listed here by the code point of their zero (Unicode 14).
  Anything else raises \<open>ValueError\<close>. Python's integers are unbounded; the interpreter's
  configurable cap on the number of digits (\<open>sys.set_int_max_str_digits\<close>, which also
  raises \<open>ValueError\<close>) is not modelled.
\<close>

definition int_isspace :: "nat \<Rightarrow> bool" where
  "int_isspace c \<longleftrightarrow> py_isspace c \<and> c \<notin> set [28, 29, 30, 31]"

definition int_strip :: "pystr \<Rightarrow> pystr" where
  "int_strip s = rev (dropWhile int_isspace (rev (dropWhile int_isspace s)))"

definition decimal_zeros :: "nat list" where
  "decimal_zeros =
     [48, 1632, 1776, 1984, 2406, 2534, 2662, 2790, 2918, 3046, 3174, 3302, 3430, 3558,
      3664, 3792, 3872, 4160, 4240, 6112, 6160, 6470, 6608, 6784, 6800, 6992, 7088, 7232,
      7248, 42528, 43216, 43264, 43472, 43504, 43600, 44016, 65296, 66720, 68912, 69734,
      69872, 69942, 70096, 70384, 70736, 70864, 71248, 71360, 71472, 71904, 72016, 72784,
      73040, 73120, 92768, 92864, 93008, 120782, 120792, 120802, 120812, 120822, 123200,
      123632, 125264, 130032]"

definition py_decimal :: "nat \<Rightarrow> nat option" where
  "py_decimal c =
     (case find (\<lambda>z. z \<le> c \<and> c < z + 10) decimal_zeros of
        None \<Rightarrow> None
      | Some z \<Rightarrow> Some (c - z))"

definition digit_group :: "pystr \<Rightarrow> nat list option" where
  "digit_group g =
     (if g \<noteq> [] \<and> list_all (\<lambda>c. py_decimal c \<noteq> None) g
      then Some (map (\<lambda>c. the (py_decimal c)) g) else None)"

definition int_digits :: "pystr \<Rightarrow> nat list option" where
  "int_digits body =
     (let groups = map digit_group (split body 95)
      in if list_all (\<lambda>g. g \<noteq> None) groups then Some (concat (map the groups)) else None)"

definition digits_value :: "nat list \<Rightarrow> nat" where
  "digits_value ds = foldl (\<lambda>a d. 10 * a + d) 0 ds"

definition py_int :: "pystr \<Rightarrow> py_exn + int" where
  "py_int s =
     (case int_strip s of
        [] \<Rightarrow> Inl ValueError
      | c # cs \<Rightarrow>
          (let negative = (c = 45);
               body = (if c = 45 \<or> c = 43 then cs else c # cs)
           in case int_digits body of
                None \<Rightarrow> Inl ValueError
              | Some ds \<Rightarrow>
                  Inr (if negative then - int (digits_value ds) else int (digits_value ds))))"

section \<open>The fetched page\<close>

text \<open>
  What \<open>scrape_league\<close> reads of the parsed HTML. A cell is the text
  \<open>get_text(strip=True)\<close> returns for it; a body row is its \<open>class\<close> attribute (a list
  of class names, empty when the attribute is absent) and the texts of its \<open>th\<close>/\<open>td\<close>
  cells; a table is its \<open>thead\<close> (the texts of the cells of each of its \<open>tr\<close>), if any,
  and the rows of its \<open>tbody\<close>, if any.
\<close>

record tr =
  classes :: "pystr list"
  cells :: "pystr list"

record table =
  thead :: "pystr list list option"
  tbody :: "tr list option"

text \<open>
  The outcome of the first \<open>try\<close> block: something raised, or a response with its status
  code and the parsed page. Of the page only the first \<open>div\<close> whose id starts with
  \<open>div_sched_\<close> matters (\<open>None\<close> when there is none), and in it the first \<open>table\<close>
  (\<open>None\<close> when the div has none).
\<close>

datatype fetched = Raised | Response int "table option option"

section \<open>Match records\<close>

text \<open>
  The dictionaries appended to \<open>matches\<close>. Both scripts store the same eight columns
  (\<open>fixture\<close>); \<open>app.py\<close> adds \<open>league_name\<close> and \<open>league_id\<close>, \<open>max.py\<close> adds
  \<open>league\<close>. A data frame is the list of its rows, in row order.
\<close>

record fixture =
  date :: pystr
  home_team :: pystr
  home_xg :: pystr
  away_team :: pystr
  away_xg :: pystr
  home_score :: int
  away_score :: int
  score :: pystr

record match = fixture +
  league_name :: pystr
  league_id :: int

record match_max = fixture +
  league :: pystr

section \<open>\<open>scrape_league\<close>\<close>

definition LEAGUES :: "(pystr \<times> int) list" where
  "LEAGUES =
     [(str ''Premier League'', 9),
      (str ''La Liga'', 12),
      (str ''Serie A'', 11),
      (str ''Bundesliga'', 20),
      (str ''Ligue 1'', 13),
      (str ''Eredivisie'', 23),
      (str ''Primeira Liga'', 32),
      (str ''Belgian Pro League'', 37),
      (str ''Scottish Premiership'', 40),
      (str ''Championship'', 10),
      (str ''S'' @ [252] @ str ''per Lig'', 26),
      (str ''Austrian Bundesliga'', 38),
      (str ''Swiss Super League'', 46),
      (str ''Greek Super League'', 27),
      (str ''Danish Superliga'', 50),
      (str ''Swedish Allsvenskan'', 29),
      (str ''Norwegian Eliteserien'', 28),
      (str ''Ukrainian Premier League'', 39),
      (str ''Polish Ekstraklasa'', 36),
      (str ''Czech First League'', 63),
      (str ''Croatian First Football League'', 64),
      (str ''Serbian SuperLiga'', 65),
      (str ''Romanian Liga I'', 62),
      (str ''Bulgarian First League'', 68),
      (str ''Hungarian NB I'', 66),
      (str ''Slovenian PrvaLiga'', 70),
      (str ''Slovak Super Liga'', 69)]"

text \<open>
  \<open>col_map = {header: idx for idx, header in enumerate(headers)}\<close>: a later column of
  the same name overwrites an earlier one.
\<close>

definition col_map :: "pystr list \<Rightarrow> (pystr \<rightharpoonup> nat)" where
  "col_map headers = fold (\<lambda>(idx, header) m. m(header \<mapsto> idx)) (enumerate 0 headers) Map.empty"

definition xg_indices :: "pystr list \<Rightarrow> nat list" where
  "xg_indices headers = map fst (filter (\<lambda>(idx, h). h = str ''xG'') (enumerate 0 headers))"

definition home_xg_idx :: "pystr list \<Rightarrow> nat option" where
  "home_xg_idx headers =
     (if length (xg_indices headers) \<ge> 1 then Some (xg_indices headers ! 0) else None)"

definition away_xg_idx :: "pystr list \<Rightarrow> nat option" where
  "away_xg_idx headers =
     (if length (xg_indices headers) \<ge> 2 then Some (xg_indices headers ! 1) else None)"

text \<open>
  \<open>cols[i].get_text(strip=True) if i and len(cols) > i else ''\<close>: the index is tested
  for truth, so both \<open>None\<close> and \<open>0\<close> select the empty string.
\<close>

definition xg_text :: "nat option \<Rightarrow> pystr list \<Rightarrow> pystr" where
  "xg_text xg_idx cols =
     (case xg_idx of
        None \<Rightarrow> []
      | Some i \<Rightarrow> if i \<noteq> 0 \<and> length cols > i then cols ! i else [])"

text \<open>
  The score cell: split on the en-dash when the text has one, else on the hyphen, unpack
  into two names, strip both and convert with \<open>int\<close>.
\<close>

definition split_score :: "pystr \<Rightarrow> py_exn + (pystr \<times> pystr)" where
  "split_score sc =
     (if en_dash \<in> set sc then unpack2 (split sc en_dash) else unpack2 (split sc hyphen))"

definition parse_score :: "pystr \<Rightarrow> py_exn + (int \<times> int)" where
  "parse_score sc =
     (case split_score sc of
        Inl e \<Rightarrow> Inl e
      | Inr (h, a) \<Rightarrow>
          (case py_int (strip h) of
             Inl e \<Rightarrow> Inl e
           | Inr hs \<Rightarrow>
               (case py_int (strip a) of
                  Inl e \<Rightarrow> Inl e
                | Inr as \<Rightarrow> Inr (hs, as))))"

text \<open>
  The body of the per-row \<open>try\<close>, up to the values that go into the dictionary; it is the
  same in both scripts, up to the order of the two tests for a separator. \<open>Inr None\<close> is
  the \<open>continue\<close> on a score without separator, \<open>Inl\<close> an exception raised inside the
  \<open>try\<close>.
\<close>

definition row_fixture ::
  "nat \<Rightarrow> nat \<Rightarrow> nat \<Rightarrow> nat \<Rightarrow> nat option \<Rightarrow> nat option \<Rightarrow> pystr list \<Rightarrow> py_exn + fixture option"
where
  "row_fixture date_idx home_idx score_idx away_idx hxg axg cols =
     (case py_index cols date_idx of Inl e \<Rightarrow> Inl e | Inr d \<Rightarrow>
     (case py_index cols home_idx of Inl e \<Rightarrow> Inl e | Inr ht \<Rightarrow>
     (case py_index cols score_idx of Inl e \<Rightarrow> Inl e | Inr sc \<Rightarrow>
     (case py_index cols away_idx of Inl e \<Rightarrow> Inl e | Inr at \<Rightarrow>
        (let hx = xg_text hxg cols; ax = xg_text axg cols
         in if sc = [] \<or> (en_dash \<notin> set sc \<and> hyphen \<notin> set sc) then Inr None
            else (case parse_score sc of
                    Inl e \<Rightarrow> Inl e
                  | Inr (hs, as) \<Rightarrow>
                      Inr (Some \<lparr>date = d, home_team = ht, home_xg = hx, away_team = at,
                                 away_xg = ax, home_score = hs, away_score = as,
                                 score = sc\<rparr>)))))))"

text \<open>
  One pass of the \<open>for row in rows\<close> loop of \<open>app.py\<close>: \<open>Inr None\<close> when the row is passed
  over (\<open>continue\<close>, also in the handler of \<open>ValueError\<close> and \<open>IndexError\<close>),
  \<open>Inr (Some m)\<close> when \<open>m\<close> is appended, \<open>Inl\<close> for an exception the handler does not
  catch.
\<close>

definition scrape_row ::
  "pystr \<Rightarrow> int \<Rightarrow> nat \<Rightarrow> nat \<Rightarrow> nat \<Rightarrow> nat \<Rightarrow> nat option \<Rightarrow> nat option \<Rightarrow> tr \<Rightarrow> py_exn + match option"
where
  "scrape_row lname lid date_idx home_idx score_idx away_idx hxg axg row =
     (if str ''spacer'' \<in> set (classes row) then Inr None
      else if length (cells row) \<le> max (max (max date_idx home_idx) score_idx) away_idx
      then Inr None
      else (case row_fixture date_idx home_idx score_idx away_idx hxg axg (cells row) of
              Inr None \<Rightarrow> Inr None
            | Inr (Some fx) \<Rightarrow>
                Inr (Some \<lparr>date = date fx, home_team = home_team fx, home_xg = home_xg fx,
                           away_team = away_team fx, away_xg = away_xg fx,
                           home_score = home_score fx, away_score = away_score fx,
                           score = score fx, league_name = lname, league_id = lid\<rparr>)
            | Inl ValueError \<Rightarrow> Inr None
            | Inl IndexError \<Rightarrow> Inr None
            | Inl e \<Rightarrow> Inl e))"

fun scrape_rows ::
  "pystr \<Rightarrow> int \<Rightarrow> nat \<Rightarrow> nat \<Rightarrow> nat \<Rightarrow> nat \<Rightarrow> nat option \<Rightarrow> nat option \<Rightarrow> tr list \<Rightarrow> match list
     \<Rightarrow> py_exn + match list"
where
  "scrape_rows lname lid di hi si ai hxg axg [] matches = Inr matches"
| "scrape_rows lname lid di hi si ai hxg axg (row # rows) matches =
     (case scrape_row lname lid di hi si ai hxg axg row of
        Inl e \<Rightarrow> Inl e
      | Inr None \<Rightarrow> scrape_rows lname lid di hi si ai hxg axg rows matches
      | Inr (Some m) \<Rightarrow> scrape_rows lname lid di hi si ai hxg axg rows (matches @ [m]))"

text \<open>
  The part of \<open>scrape_league\<close> after the first \<open>try\<close>, on the table found. \<open>thead\<close>
  absent returns the empty frame; \<open>thead.find_all('tr')[-1]\<close> raises \<open>IndexError\<close> when
  the \<open>thead\<close> has no row; \<open>tbody.find_all\<close> raises \<open>AttributeError\<close> when
  \<open>table.find('tbody')\<close> is \<open>None\<close>.
\<close>

definition scrape_table :: "pystr \<Rightarrow> int \<Rightarrow> table \<Rightarrow> py_exn + match list" where
  "scrape_table lname lid tbl =
     (case thead tbl of
        None \<Rightarrow> Inr []
      | Some header_rows \<Rightarrow>
          (case py_last header_rows of
             Inl e \<Rightarrow> Inl e
           | Inr headers \<Rightarrow>
               (case (col_map headers (str ''Date''), col_map headers (str ''Home''),
                      col_map headers (str ''Score''), col_map headers (str ''Away'')) of
                  (Some date_idx, Some home_idx, Some score_idx, Some away_idx) \<Rightarrow>
                    (case tbody tbl of
                       None \<Rightarrow> Inl AttributeError
                     | Some rows \<Rightarrow>
                         scrape_rows lname lid date_idx home_idx score_idx away_idx
                           (home_xg_idx headers) (away_xg_idx headers) rows [])
                | _ \<Rightarrow> Inr [])))"

text \<open>
  \<open>scrape_league(league_name)\<close> of \<open>app.py\<close>, given what the fetch produced.
  \<open>LEAGUES[league_name]\<close> is evaluated before the \<open>try\<close>. The pacing delay and the
  messages written to the page are not modelled; the returned data frame is the list of
  the dictionaries appended, \<open>pd.DataFrame()\<close> the empty list.
\<close>

definition scrape_league :: "pystr \<Rightarrow> fetched \<Rightarrow> py_exn + match list" where
  "scrape_league lname f =
     (case map_of LEAGUES lname of
        None \<Rightarrow> Inl KeyError
      | Some lid \<Rightarrow>
          (case f of
             Raised \<Rightarrow> Inr []
           | Response status_code soup \<Rightarrow>
               if status_code = 429 then Inr []
               else if status_code \<noteq> 200 then Inr []
               else (case soup of
                       None \<Rightarrow> Inr []
                     | Some None \<Rightarrow> Inr []
                     | Some (Some tbl) \<Rightarrow> scrape_table lname lid tbl)))"

text \<open>
  \<open>scrape_league\<close> of \<open>max.py\<close>: the same statements, with the dictionary holding the
  league name under \<open>league\<close> and no identifier (\<open>league_id\<close> is still looked up, for the
  URL).
\<close>

definition scrape_row_max ::
  "pystr \<Rightarrow> nat \<Rightarrow> nat \<Rightarrow> nat \<Rightarrow> nat \<Rightarrow> nat option \<Rightarrow> nat option \<Rightarrow> tr \<Rightarrow> py_exn + match_max option"
where
  "scrape_row_max lname date_idx home_idx score_idx away_idx hxg axg row =
     (if str ''spacer'' \<in> set (classes row) then Inr None
      else if length (cells row) \<le> max (max (max date_idx home_idx) score_idx) away_idx
      then Inr None
      else (case row_fixture date_idx home_idx score_idx away_idx hxg axg (cells row) of
              Inr None \<Rightarrow> Inr None
            | Inr (Some fx) \<Rightarrow>
                Inr (Some \<lparr>date = date fx, home_team = home_team fx, home_xg = home_xg fx,
                           away_team = away_team fx, away_xg = away_xg fx,
                           home_score = home_score fx, away_score = away_score fx,
                           score = score fx, league = lname\<rparr>)
            | Inl ValueError \<Rightarrow> Inr None
            | Inl IndexError \<Rightarrow> Inr None
            | Inl e \<Rightarrow> Inl e))"

fun scrape_rows_max ::
  "pystr \<Rightarrow> nat \<Rightarrow> nat \<Rightarrow> nat \<Rightarrow> nat \<Rightarrow> nat option \<Rightarrow> nat option \<Rightarrow> tr list \<Rightarrow> match_max list
     \<Rightarrow> py_exn + match_max list"
where
  "scrape_rows_max lname di hi si ai hxg axg [] matches = Inr matches"
| "scrape_rows_max lname di hi si ai hxg axg (row # rows) matches =
     (case scrape_row_max lname di hi si ai hxg axg row of
        Inl e \<Rightarrow> Inl e
      | Inr None \<Rightarrow> scrape_rows_max lname di hi si ai hxg axg rows matches
      | Inr (Some m) \<Rightarrow> scrape_rows_max lname di hi si ai hxg axg rows (matches @ [m]))"

definition scrape_table_max :: "pystr \<Rightarrow> table \<Rightarrow> py_exn + match_max list" where
  "scrape_table_max lname tbl =
     (case thead tbl of
        None \<Rightarrow> Inr []
      | Some header_rows \<Rightarrow>
          (case py_last header_rows of
             Inl e \<Rightarrow> Inl e
           | Inr headers \<Rightarrow>
               (case (col_map headers (str ''Date''), col_map headers (str ''Home''),
                      col_map headers (str ''Score''), col_map headers (str ''Away'')) of
                  (Some date_idx, Some home_idx, Some score_idx, Some away_idx) \<Rightarrow>
                    (case tbody tbl of
                       None \<Rightarrow> Inl AttributeError
                     | Some rows \<Rightarrow>
                         scrape_rows_max lname date_idx home_idx score_idx away_idx
                           (home_xg_idx headers) (away_xg_idx headers) rows [])
                | _ \<Rightarrow> Inr [])))"

definition scrape_league_max :: "pystr \<Rightarrow> fetched \<Rightarrow> py_exn + match_max list" where
  "scrape_league_max lname f =
     (case map_of LEAGUES lname of
        None \<Rightarrow> Inl KeyError
      | Some lid \<Rightarrow>
          (case f of
             Raised \<Rightarrow> Inr []
           | Response status_code soup \<Rightarrow>
               if status_code = 429 then Inr []
               else if status_code \<noteq> 200 then Inr []
               else (case soup of
                       None \<Rightarrow> Inr []
                     | Some None \<Rightarrow> Inr []
                     | Some (Some tbl) \<Rightarrow> scrape_table_max lname tbl)))"

section \<open>\<open>get_team_results\<close>\<close>

text \<open>The values of the \<open>result\<close> column (\<open>'W'\<close>, \<open>'L'\<close>, \<open>'D'\<close>) and of \<open>location\<close>.\<close>

datatype outcome = W | L | D

datatype venue = H | A

text \<open>
  The rows \<open>get_team_results\<close> returns: the eight columns both scripts select, then the
  league columns of each script. The columns \<open>date\<close>, \<open>league_name\<close>, \<open>league_id\<close>
  and \<open>league\<close> are carried over from the match; here they are named \<open>row_date\<close>,
  \<open>row_league_name\<close>, \<open>row_league_id\<close> and \<open>row_league\<close>.
\<close>

record team_row =
  row_date :: pystr
  opponent :: pystr
  location :: venue
  team_score :: int
  opp_score :: int
  team_xg :: pystr
  opp_xg :: pystr
  result :: outcome

record game_row = team_row +
  row_league_name :: pystr
  row_league_id :: int

record game_row_max = team_row +
  row_league :: pystr

text \<open>
  \<open>'W' if team_score > opp_score else ('L' if team_score < opp_score else 'D')\<close>.
  \<open>apply(..., axis=1)\<close> computes it for each row from that row alone, so the model fills
  the column when the row is built rather than after the sort.
\<close>

definition result_of :: "int \<Rightarrow> int \<Rightarrow> outcome" where
  "result_of ts os = (if ts > os then W else if ts < os then L else D)"

definition home_row :: "match \<Rightarrow> game_row" where
  "home_row m =
     \<lparr>row_date = date m, opponent = away_team m, location = H,
      team_score = home_score m, opp_score = away_score m,
      team_xg = home_xg m, opp_xg = away_xg m,
      result = result_of (home_score m) (away_score m),
      row_league_name = league_name m, row_league_id = league_id m\<rparr>"

definition away_row :: "match \<Rightarrow> game_row" where
  "away_row m =
     \<lparr>row_date = date m, opponent = home_team m, location = A,
      team_score = away_score m, opp_score = home_score m,
      team_xg = away_xg m, opp_xg = home_xg m,
      result = result_of (away_score m) (home_score m),
      row_league_name = league_name m, row_league_id = league_id m\<rparr>"

text \<open>
  \<open>sort_values(col, ascending=False)\<close>. pandas reverses the rows, sorts them ascending
  and reverses the outcome; with a stable sort rows of equal key keep their order. Under
  the default \<open>kind='quicksort'\<close> the order of rows with equal key is not specified; the
  model fixes the stable one.
\<close>

definition sort_values_desc :: "('a \<Rightarrow> pystr) \<Rightarrow> 'a list \<Rightarrow> 'a list" where
  "sort_values_desc col xs = rev (sort_key col (rev xs))"

definition get_team_results :: "match list \<Rightarrow> pystr \<Rightarrow> game_row list" where
  "get_team_results df team_name =
     (let home_games = map home_row (filter (\<lambda>m. home_team m = team_name) df);
          away_games = map away_row (filter (\<lambda>m. away_team m = team_name) df)
      in sort_values_desc row_date (home_games @ away_games))"

text \<open>
  The scores are the integers the frame holds. pandas keeps a score column as
  \<open>int64\<close>, \<open>uint64\<close>, \<open>float64\<close> or as Python objects, and \<open>pd.concat\<close> of the home
  rows with the away rows turns \<open>team_score\<close> and \<open>opp_score\<close> into \<open>float64\<close> when the
  two score columns differ in type. The conversion is the identity on integers of
  magnitude at most \<open>2 ^ 53\<close>: on a frame with \<open>exact_scores\<close> the rows and their
  results are those of the code. Beyond, the code may compare rounded values.
\<close>

definition exact_scores :: "'a fixture_scheme list \<Rightarrow> bool" where
  "exact_scores df \<longleftrightarrow>
     list_all (\<lambda>m. \<bar>home_score m\<bar> \<le> 9007199254740992 \<and> \<bar>away_score m\<bar> \<le> 9007199254740992) df"

text \<open>The same function of \<open>max.py\<close>, with the single \<open>league\<close> column.\<close>

definition home_row_max :: "match_max \<Rightarrow> game_row_max" where
  "home_row_max m =
     \<lparr>row_date = date m, opponent = away_team m, location = H,
      team_score = home_score m, opp_score = away_score m,
      team_xg = home_xg m, opp_xg = away_xg m,
      result = result_of (home_score m) (away_score m),
      row_league = league m\<rparr>"

definition away_row_max :: "match_max \<Rightarrow> game_row_max" where
  "away_row_max m =
     \<lparr>row_date = date m, opponent = home_team m, location = A,
      team_score = away_score m, opp_score = home_score m,
      team_xg = away_xg m, opp_xg = home_xg m,
      result = result_of (away_score m) (home_score m),
      row_league = league m\<rparr>"

definition get_team_results_max :: "match_max list \<Rightarrow> pystr \<Rightarrow> game_row_max list" where
  "get_team_results_max df team_name =
     (let home_games = map home_row_max (filter (\<lambda>m. home_team m = team_name) df);
          away_games = map away_row_max (filter (\<lambda>m. away_team m = team_name) df)
      in sort_values_desc row_date (home_games @ away_games))"

section \<open>\<open>find_game_streaks\<close> and \<open>find_3_game_streaks\<close>\<close>

text \<open>
  The dictionaries appended to the two result lists: \<open>team\<close> and \<open>games\<close> in both
  scripts, with the league columns of the first row of \<open>games\<close>.
\<close>

record 'g streak_base =
  team :: pystr
  games :: "'g list"

record streak = "game_row streak_base" +
  streak_league_name :: pystr
  streak_league_id :: int

record streak_max = "game_row_max streak_base" +
  streak_league :: pystr

text \<open>
  \<open>teams = set(df['home_team'].unique()) | set(df['away_team'].unique())\<close>. The loop
  \<open>for team in teams\<close> visits a Python set, whose order is not specified:
  the functions below take the order of the visit as an argument, and
  \<open>iteration_of\<close> says that a list is such an order.
\<close>

definition teams_of :: "'a fixture_scheme list \<Rightarrow> pystr set" where
  "teams_of df = set (map home_team df) \<union> set (map away_team df)"

definition iteration_of :: "pystr list \<Rightarrow> 'a fixture_scheme list \<Rightarrow> bool" where
  "iteration_of teams df \<longleftrightarrow> distinct teams \<and> set teams = teams_of df"

text \<open>
  \<open>results.head(n)\<close> is \<open>results.iloc[:n]\<close>: the first \<open>n\<close> rows, and for negative \<open>n\<close>
  all rows but the last \<open>-n\<close>. \<open>'W' * n\<close> is empty for \<open>n \<le> 0\<close>. The results are single
  characters, so \<open>''.join(...)\<close> of them is compared as the list of results.
\<close>

definition head :: "'a list \<Rightarrow> int \<Rightarrow> 'a list" where
  "head xs n = (if n \<ge> 0 then take (nat n) xs else take (nat (int (length xs) + n)) xs)"

definition check_win :: "pystr \<Rightarrow> game_row list \<Rightarrow> int \<Rightarrow> streak list \<Rightarrow> py_exn + streak list" where
  "check_win t results win_streak_count win_streaks =
     (if int (length results) \<ge> win_streak_count then
        (let last_wins = head results win_streak_count
         in if map result last_wins = replicate (nat win_streak_count) W then
              (case py_index last_wins 0 of
                 Inl e \<Rightarrow> Inl e
               | Inr first \<Rightarrow>
                   Inr (win_streaks @
                        [\<lparr>team = t, games = last_wins,
                          streak_league_name = row_league_name first,
                          streak_league_id = row_league_id first\<rparr>]))
            else Inr win_streaks)
      else Inr win_streaks)"

definition check_loss :: "pystr \<Rightarrow> game_row list \<Rightarrow> int \<Rightarrow> streak list \<Rightarrow> py_exn + streak list" where
  "check_loss t results loss_streak_count loss_streaks =
     (if int (length results) \<ge> loss_streak_count then
        (let last_losses = head results loss_streak_count
         in if map result last_losses = replicate (nat loss_streak_count) L then
              (case py_index last_losses 0 of
                 Inl e \<Rightarrow> Inl e
               | Inr first \<Rightarrow>
                   Inr (loss_streaks @
                        [\<lparr>team = t, games = last_losses,
                          streak_league_name = row_league_name first,
                          streak_league_id = row_league_id first\<rparr>]))
            else Inr loss_streaks)
      else Inr loss_streaks)"

text \<open>
  One pass of \<open>for team in teams\<close> in \<open>find_game_streaks\<close>, on the two lists built so
  far. \<open>iloc[0]\<close> on a frame without rows raises \<open>IndexError\<close>, which nothing catches.
\<close>

definition streaks_step ::
  "match list \<Rightarrow> int \<Rightarrow> int \<Rightarrow> pystr \<Rightarrow> streak list \<times> streak list
     \<Rightarrow> py_exn + (streak list \<times> streak list)"
where
  "streaks_step df win_streak_count loss_streak_count t acc =
     (let results = get_team_results df t
      in if int (length results) < max win_streak_count loss_streak_count then Inr acc
         else (case check_win t results win_streak_count (fst acc) of
                 Inl e \<Rightarrow> Inl e
               | Inr win_streaks \<Rightarrow>
                   (case check_loss t results loss_streak_count (snd acc) of
                      Inl e \<Rightarrow> Inl e
                    | Inr loss_streaks \<Rightarrow> Inr (win_streaks, loss_streaks))))"

fun streaks_loop ::
  "match list \<Rightarrow> int \<Rightarrow> int \<Rightarrow> pystr list \<Rightarrow> streak list \<times> streak list
     \<Rightarrow> py_exn + (streak list \<times> streak list)"
where
  "streaks_loop df wc lc [] acc = Inr acc"
| "streaks_loop df wc lc (t # ts) acc =
     (case streaks_step df wc lc t acc of
        Inl e \<Rightarrow> Inl e
      | Inr acc' \<Rightarrow> streaks_loop df wc lc ts acc')"

text \<open>
  \<open>find_game_streaks(df, win_streak_count, loss_streak_count)\<close> of \<open>app.py\<close>, visiting
  the teams in the order \<open>teams\<close>. The frame is taken to have its columns, as every
  frame the script passes has.
\<close>

definition find_game_streaks ::
  "pystr list \<Rightarrow> match list \<Rightarrow> int \<Rightarrow> int \<Rightarrow> py_exn + (streak list \<times> streak list)"
where
  "find_game_streaks teams df win_streak_count loss_streak_count =
     streaks_loop df win_streak_count loss_streak_count teams ([], [])"

text \<open>\<open>find_3_game_streaks(df)\<close> of \<open>max.py\<close>: one window of three, \<open>if\<close>/\<open>elif\<close>.\<close>

definition streaks_step_max ::
  "match_max list \<Rightarrow> pystr \<Rightarrow> streak_max list \<times> streak_max list
     \<Rightarrow> py_exn + (streak_max list \<times> streak_max list)"
where
  "streaks_step_max df t acc =
     (let results = get_team_results_max df t
      in if length results < 3 then Inr acc
         else (let last_3 = head results 3; results_str = map result last_3
               in if results_str = [W, W, W] then
                    (case py_index last_3 0 of
                       Inl e \<Rightarrow> Inl e
                     | Inr first \<Rightarrow>
                         Inr (fst acc @
                              [\<lparr>team = t, games = last_3, streak_league = row_league first\<rparr>],
                              snd acc))
                  else if results_str = [L, L, L] then
                    (case py_index last_3 0 of
                       Inl e \<Rightarrow> Inl e
                     | Inr first \<Rightarrow>
                         Inr (fst acc,
                              snd acc @
                              [\<lparr>team = t, games = last_3, streak_league = row_league first\<rparr>]))
                  else Inr acc))"

fun streaks_loop_max ::
  "match_max list \<Rightarrow> pystr list \<Rightarrow> streak_max list \<times> streak_max list
     \<Rightarrow> py_exn + (streak_max list \<times> streak_max list)"
where
  "streaks_loop_max df [] acc = Inr acc"
| "streaks_loop_max df (t # ts) acc =
     (case streaks_step_max df t acc of
        Inl e \<Rightarrow> Inl e
      | Inr acc' \<Rightarrow> streaks_loop_max df ts acc')"

definition find_3_game_streaks ::
  "pystr list \<Rightarrow> match_max list \<Rightarrow> py_exn + (streak_max list \<times> streak_max list)"
where
  "find_3_game_streaks teams df = streaks_loop_max df teams ([], [])"

section \<open>Notions used in the statements and proofs\<close>

text \<open>
  The same data under the column names of \<open>max.py\<close>: \<open>league\<close> holds what \<open>app.py\<close>
  calls \<open>league_name\<close>, and \<open>league_id\<close> has no counterpart.
\<close>

definition as_max :: "match \<Rightarrow> match_max" where
  "as_max m =
     \<lparr>date = date m, home_team = home_team m, home_xg = home_xg m, away_team = away_team m,
      away_xg = away_xg m, home_score = home_score m, away_score = away_score m,
      score = score m, league = league_name m\<rparr>"

definition row_as_max :: "game_row \<Rightarrow> game_row_max" where
  "row_as_max r =
     \<lparr>row_date = row_date r, opponent = opponent r, location = location r,
      team_score = team_score r, opp_score = opp_score r, team_xg = team_xg r,
      opp_xg = opp_xg r, result = result r, row_league = row_league_name r\<rparr>"

definition streak_as_max :: "streak \<Rightarrow> streak_max" where
  "streak_as_max g =
     \<lparr>team = team g, games = map row_as_max (games g), streak_league = streak_league_name g\<rparr>"

text \<open>
  The entries one team contributes to the two result lists when both lengths are
  positive, as functions of the team; the loops are shown below to append exactly these.
\<close>

definition streak_of :: "pystr \<Rightarrow> game_row list \<Rightarrow> streak" where
  "streak_of t rows =
     \<lparr>team = t, games = rows, streak_league_name = row_league_name (hd rows),
      streak_league_id = row_league_id (hd rows)\<rparr>"

definition wins_of :: "match list \<Rightarrow> int \<Rightarrow> int \<Rightarrow> pystr \<Rightarrow> streak list" where
  "wins_of df wc lc t =
     (let results = get_team_results df t
      in if max wc lc \<le> int (length results)
            \<and> map result (head results wc) = replicate (nat wc) W
         then [streak_of t (head results wc)] else [])"

definition losses_of :: "match list \<Rightarrow> int \<Rightarrow> int \<Rightarrow> pystr \<Rightarrow> streak list" where
  "losses_of df wc lc t =
     (let results = get_team_results df t
      in if max wc lc \<le> int (length results)
            \<and> map result (head results lc) = replicate (nat lc) L
         then [streak_of t (head results lc)] else [])"

definition streak_max_of :: "pystr \<Rightarrow> game_row_max list \<Rightarrow> streak_max" where
  "streak_max_of t rows = \<lparr>team = t, games = rows, streak_league = row_league (hd rows)\<rparr>"

definition wins_max :: "match_max list \<Rightarrow> pystr \<Rightarrow> streak_max list" where
  "wins_max df t =
     (let results = get_team_results_max df t
      in if 3 \<le> length results \<and> map result (head results 3) = [W, W, W]
         then [streak_max_of t (head results 3)] else [])"

definition losses_max :: "match_max list \<Rightarrow> pystr \<Rightarrow> streak_max list" where
  "losses_max df t =
     (let results = get_team_results_max df t
      in if 3 \<le> length results \<and> map result (head results 3) = [L, L, L]
         then [streak_max_of t (head results 3)] else [])"

text \<open>The team of an entry has played, and its most recent result is the given one.\<close>

definition leads :: "match list \<Rightarrow> outcome \<Rightarrow> streak \<Rightarrow> bool" where
  "leads df x g \<longleftrightarrow>
     get_team_results df (team g) \<noteq> [] \<and> result (hd (get_team_results df (team g))) = x"

section \<open>Example inputs\<close>

text \<open>Tables used below to run the functions on concrete input.\<close>

definition negative_score_table :: table where
  "negative_score_table =
     \<lparr>thead = Some [[str ''Date'', str ''Home'', str ''Score'', str ''Away'']],
      tbody = Some [\<lparr>classes = [],
                     cells = [str ''2024-05-01'', str ''Ajax'', str ''-1'' @ en_dash # str ''2'',
                              str ''PSV'']\<rparr>]\<rparr>"

definition negative_score_match :: match where
  "negative_score_match =
     \<lparr>date = str ''2024-05-01'', home_team = str ''Ajax'', home_xg = [],
      away_team = str ''PSV'', away_xg = [], home_score = - 1, away_score = 2,
      score = str ''-1'' @ en_dash # str ''2'',
      league_name = str ''Eredivisie'', league_id = 23\<rparr>"

definition played_row :: tr where
  "played_row =
     \<lparr>classes = [], cells = [str ''2024-05-01'', str ''Ajax'', str ''2-1'', str ''PSV'']\<rparr>"

definition postponed_row :: tr where
  "postponed_row =
     \<lparr>classes = [], cells = [str ''2024-05-08'', str ''Ajax'', str ''postponed'', str ''AZ'']\<rparr>"

definition played_match :: match where
  "played_match =
     \<lparr>date = str ''2024-05-01'', home_team = str ''Ajax'', home_xg = [],
      away_team = str ''PSV'', away_xg = [], home_score = 2, away_score = 1,
      score = str ''2-1'', league_name = str ''Eredivisie'', league_id = 23\<rparr>"

definition no_tbody_table :: table where
  "no_tbody_table =
     \<lparr>thead = Some [[str ''Date'', str ''Home'', str ''Score'', str ''Away'']], tbody = None\<rparr>"

definition empty_thead_table :: table where
  "empty_thead_table = \<lparr>thead = Some [], tbody = Some []\<rparr>"

definition headerless_table :: table where
  "headerless_table = \<lparr>thead = Some [], tbody = Some [played_row]\<rparr>"

definition no_score_table :: table where
  "no_score_table =
     \<lparr>thead = Some [[str ''Date'', str ''Home'', str ''Away'']],
      tbody = Some [\<lparr>classes = [], cells = [str ''2024-05-01'', str ''Ajax'', str ''PSV'']\<rparr>]\<rparr>"

definition xg_first_table :: table where
  "xg_first_table =
     \<lparr>thead = Some [[str ''xG'', str ''Date'', str ''Home'', str ''Score'', str ''Away'',
                      str ''xG'']],
      tbody = Some [\<lparr>classes = [],
                     cells = [str ''1.2'', str ''2024-05-01'', str ''Ajax'', str ''2-1'',
                              str ''PSV'', str ''0.8'']\<rparr>]\<rparr>"

definition xg_first_match :: match where
  "xg_first_match =
     \<lparr>date = str ''2024-05-01'', home_team = str ''Ajax'', home_xg = [],
      away_team = str ''PSV'', away_xg = str ''0.8'', home_score = 2, away_score = 1,
      score = str ''2-1'', league_name = str ''Eredivisie'', league_id = 23\<rparr>"

text \<open>Frames used below: five fixtures of one team, and a record naming one team twice.\<close>

definition game :: "string \<Rightarrow> string \<Rightarrow> string \<Rightarrow> int \<Rightarrow> int \<Rightarrow> string \<Rightarrow> match" where
  "game d h sc hs as a =
     \<lparr>date = str d, home_team = str h, home_xg = [], away_team = str a, away_xg = [],
      home_score = hs, away_score = as, score = str sc,
      league_name = str ''Eredivisie'', league_id = 23\<rparr>"

definition ajax_form :: "match list" where
  "ajax_form =
     [game ''2024-04-07'' ''Ajax'' ''1-0'' 1 0 ''AZ'',
      game ''2024-04-14'' ''PSV'' ''2-1'' 2 1 ''Ajax'',
      game ''2024-04-21'' ''Ajax'' ''3-1'' 3 1 ''Feyenoord'',
      game ''2024-04-28'' ''AZ'' ''0-1'' 0 1 ''Ajax'',
      game ''2024-05-05'' ''Ajax'' ''2-0'' 2 0 ''PSV'']"

definition ajax_draw :: "match list" where
  "ajax_draw =
     [game ''2024-04-07'' ''Ajax'' ''1-0'' 1 0 ''AZ'',
      game ''2024-04-14'' ''PSV'' ''2-1'' 2 1 ''Ajax'',
      game ''2024-04-21'' ''Ajax'' ''1-1'' 1 1 ''Feyenoord'',
      game ''2024-04-28'' ''AZ'' ''0-1'' 0 1 ''Ajax'',
      game ''2024-05-05'' ''Ajax'' ''2-0'' 2 0 ''PSV'']"

definition eredivisie_four :: "pystr list" where
  "eredivisie_four = [str ''Ajax'', str ''PSV'', str ''AZ'', str ''Feyenoord'']"

definition self_match :: match where
  "self_match = game ''2024-05-05'' ''Ajax'' ''1-0'' 1 0 ''Ajax''"

section \<open>Evaluation rules\<close>

lemmas py_eval = str_def en_dash_def hyphen_def py_index_def py_last_def unpack2_def
  py_isspace_def strip_def int_isspace_def int_strip_def decimal_zeros_def py_decimal_def digit_group_def int_digits_def
  digits_value_def py_int_def split_score_def parse_score_def

lemmas scrape_eval = py_eval LEAGUES_def col_map_def xg_indices_def home_xg_idx_def
  away_xg_idx_def xg_text_def row_fixture_def scrape_row_def scrape_table_def scrape_league_def

lemmas frame_eval = str_def game_def get_team_results_def sort_values_desc_def home_row_def
  away_row_def result_of_def

section \<open>Strings, splitting and \<open>int\<close>\<close>

lemma split_not_Nil: "split s sep \<noteq> []"
  by (induction s) (auto split: list.splits)

lemma split_parts: "p \<in> set (split s sep) \<Longrightarrow> sep \<notin> set p \<and> set p \<subseteq> set s"
proof (induction s arbitrary: p)
  case Nil
  then show ?case by simp
next
  case (Cons c cs)
  show ?case
  proof (cases "c = sep")
    case True
    with Cons show ?thesis by auto
  next
    case False
    obtain q qs where q: "split cs sep = q # qs"
      using split_not_Nil [of cs sep] by (cases "split cs sep") auto
    with False Cons.prems have "p = c # q \<or> p \<in> set qs" by auto
    then show ?thesis
    proof
      assume "p = c # q"
      moreover have "sep \<notin> set q \<and> set q \<subseteq> set cs" using Cons.IH [of q] q by simp
      ultimately show ?thesis using False by auto
    next
      assume "p \<in> set qs"
      then have "sep \<notin> set p \<and> set p \<subseteq> set cs" using Cons.IH [of p] q by simp
      then show ?thesis by auto
    qed
  qed
qed

lemma unpack2_Inl: "unpack2 xs = Inl e \<Longrightarrow> e = ValueError"
  by (auto simp: unpack2_def split: list.splits)

lemma unpack2_Inr: "unpack2 xs = Inr (a, b) \<Longrightarrow> xs = [a, b]"
  by (auto simp: unpack2_def split: list.splits)

lemma py_int_Inl: "py_int s = Inl e \<Longrightarrow> e = ValueError"
  by (auto simp: py_int_def Let_def split: list.splits option.splits)

lemma set_strip: "set (strip s) \<subseteq> set s"
proof -
  have "set (strip s) = set (dropWhile py_isspace (rev (dropWhile py_isspace s)))"
    by (simp add: strip_def)
  also have "\<dots> \<subseteq> set (rev (dropWhile py_isspace s))" by (rule set_dropWhileD [THEN subsetI])
  also have "\<dots> \<subseteq> set s" using set_dropWhileD by fastforce
  finally show ?thesis .
qed

lemma set_int_strip: "set (int_strip s) \<subseteq> set s"
proof -
  have "set (int_strip s) = set (dropWhile int_isspace (rev (dropWhile int_isspace s)))"
    by (simp add: int_strip_def)
  also have "\<dots> \<subseteq> set (rev (dropWhile int_isspace s))" by (rule set_dropWhileD [THEN subsetI])
  also have "\<dots> \<subseteq> set s" using set_dropWhileD by fastforce
  finally show ?thesis .
qed

lemma py_int_negative: "py_int s = Inr n \<Longrightarrow> n < 0 \<Longrightarrow> hyphen \<in> set s"
proof -
  assume a: "py_int s = Inr n" and n: "n < 0"
  then obtain c cs where s: "int_strip s = c # cs"
    by (cases "int_strip s") (auto simp: py_int_def)
  have "c = 45" using a n s
    by (auto simp: py_int_def Let_def split: option.splits if_splits)
  then have "hyphen \<in> set (int_strip s)" using s by (simp add: hyphen_def)
  then show ?thesis using set_int_strip by blast
qed

lemma parse_score_Inl: "parse_score sc = Inl e \<Longrightarrow> e = ValueError"
  by (auto simp: parse_score_def split_score_def split: sum.splits if_splits prod.splits
           dest: unpack2_Inl py_int_Inl)

lemma parse_score_sides:
  assumes "parse_score sc = Inr (hs, as)"
  shows "\<exists>h a. split_score sc = Inr (h, a) \<and> py_int (strip h) = Inr hs \<and> py_int (strip a) = Inr as"
  using assms by (auto simp: parse_score_def split: sum.splits prod.splits)

lemma split_score_sides:
  assumes "split_score sc = Inr (h, a)"
  shows "set h \<subseteq> set sc \<and> set a \<subseteq> set sc \<and> (en_dash \<notin> set sc \<longrightarrow> hyphen \<notin> set h \<and> hyphen \<notin> set a)"
proof -
  define sep where "sep = (if en_dash \<in> set sc then en_dash else hyphen)"
  have "unpack2 (split sc sep) = Inr (h, a)"
    using assms by (simp add: split_score_def sep_def split: if_splits)
  then have "split sc sep = [h, a]" by (rule unpack2_Inr)
  then have "h \<in> set (split sc sep)" "a \<in> set (split sc sep)" by simp_all
  then have "sep \<notin> set h \<and> set h \<subseteq> set sc" "sep \<notin> set a \<and> set a \<subseteq> set sc"
    by (simp_all add: split_parts)
  then show ?thesis by (auto simp: sep_def)
qed

lemma parse_score_negative:
  assumes "parse_score sc = Inr (hs, as)" and "hs < 0 \<or> as < 0"
  shows "en_dash \<in> set sc \<and> hyphen \<in> set sc"
proof -
  obtain h a where sp: "split_score sc = Inr (h, a)"
    and h: "py_int (strip h) = Inr hs" and a: "py_int (strip a) = Inr as"
    using parse_score_sides [OF assms(1)] by blast
  from assms(2) have "hyphen \<in> set h \<or> hyphen \<in> set a"
    using py_int_negative [OF h] py_int_negative [OF a] set_strip by blast
  then show ?thesis using split_score_sides [OF sp] by blast
qed

section \<open>Rows and tables\<close>

lemma row_fixture_Inl:
  "row_fixture di hi si ai hxg axg cols = Inl e \<Longrightarrow> e = ValueError \<or> e = IndexError"
  by (auto simp: row_fixture_def py_index_def Let_def
           split: sum.splits if_splits prod.splits dest: parse_score_Inl)

lemma row_fixture_Some:
  assumes "row_fixture di hi si ai hxg axg cols = Inr (Some fx)"
  shows "si < length cols \<and> score fx = cols ! si
         \<and> parse_score (score fx) = Inr (home_score fx, away_score fx)
         \<and> home_xg fx = xg_text hxg cols \<and> away_xg fx = xg_text axg cols"
  using assms
  by (auto simp: row_fixture_def py_index_def Let_def split: sum.splits if_splits prod.splits)

lemma scrape_row_total: "\<exists>r. scrape_row lname lid di hi si ai hxg axg row = Inr r"
proof (cases "row_fixture di hi si ai hxg axg (cells row)")
  case (Inl e)
  then have "e = ValueError \<or> e = IndexError" by (rule row_fixture_Inl)
  with Inl show ?thesis by (auto simp: scrape_row_def)
next
  case (Inr r)
  then show ?thesis by (cases r) (auto simp: scrape_row_def)
qed

lemma scrape_row_Some:
  assumes "scrape_row lname lid di hi si ai hxg axg row = Inr (Some m)"
  shows "league_name m = lname \<and> league_id m = lid
         \<and> si < length (cells row) \<and> score m = cells row ! si
         \<and> parse_score (score m) = Inr (home_score m, away_score m)
         \<and> home_xg m = xg_text hxg (cells row) \<and> away_xg m = xg_text axg (cells row)"
proof -
  from assms obtain fx where fx: "row_fixture di hi si ai hxg axg (cells row) = Inr (Some fx)"
    and m: "m = \<lparr>date = date fx, home_team = home_team fx, home_xg = home_xg fx,
                 away_team = away_team fx, away_xg = away_xg fx,
                 home_score = home_score fx, away_score = away_score fx,
                 score = score fx, league_name = lname, league_id = lid\<rparr>"
    by (auto simp: scrape_row_def split: if_splits sum.splits option.splits py_exn.splits)
  from row_fixture_Some [OF fx] m show ?thesis by auto
qed

lemma scrape_row_bad_score:
  assumes "length (cells row) \<le> si \<or> cells row ! si = []
           \<or> (en_dash \<notin> set (cells row ! si) \<and> hyphen \<notin> set (cells row ! si))
           \<or> (\<exists>e. parse_score (cells row ! si) = Inl e)"
  shows "scrape_row lname lid di hi si ai hxg axg row = Inr None"
proof -
  obtain r where r: "scrape_row lname lid di hi si ai hxg axg row = Inr r"
    using scrape_row_total by blast
  show ?thesis
  proof (cases r)
    case None
    with r show ?thesis by simp
  next
    case (Some m)
    from r Some have rm: "scrape_row lname lid di hi si ai hxg axg row = Inr (Some m)" by simp
    note S = scrape_row_Some [OF rm]
    from S have 1: "si < length (cells row)" by blast
    from S have 2: "score m = cells row ! si" by blast
    from S have 3: "parse_score (score m) = Inr (home_score m, away_score m)" by blast
    from r Some obtain fx where fx: "row_fixture di hi si ai hxg axg (cells row) = Inr (Some fx)"
      by (auto simp: scrape_row_def split: if_splits sum.splits option.splits py_exn.splits)
    then have "cells row ! si \<noteq> [] \<and> \<not> (en_dash \<notin> set (cells row ! si) \<and> hyphen \<notin> set (cells row ! si))"
      by (auto simp: row_fixture_def py_index_def Let_def split: sum.splits if_splits prod.splits)
    from 2 3 have "parse_score (cells row ! si) = Inr (home_score m, away_score m)" by simp
    with assms 1 \<open>cells row ! si \<noteq> [] \<and> \<not> (en_dash \<notin> set (cells row ! si) \<and> hyphen \<notin> set (cells row ! si))\<close>
    show ?thesis by auto
  qed
qed

lemma scrape_row_good_score:
  assumes "str ''spacer'' \<notin> set (classes row)"
    and "max (max (max di hi) si) ai < length (cells row)"
    and "en_dash \<in> set (cells row ! si) \<or> hyphen \<in> set (cells row ! si)"
    and "parse_score (cells row ! si) = Inr (hs, as)"
  shows "\<exists>m. scrape_row lname lid di hi si ai hxg axg row = Inr (Some m)
             \<and> home_score m = hs \<and> away_score m = as"
proof -
  from assms(3) have "cells row ! si \<noteq> []" by auto
  with assms show ?thesis
    by (auto simp: scrape_row_def row_fixture_def py_index_def Let_def)
qed

lemma scrape_rows_concat:
  "scrape_rows lname lid di hi si ai hxg axg rows acc =
     Inr (acc @ concat (map (\<lambda>row. case scrape_row lname lid di hi si ai hxg axg row of
                                      Inr (Some m) \<Rightarrow> [m] | _ \<Rightarrow> []) rows))"
proof (induction rows arbitrary: acc)
  case Nil
  then show ?case by simp
next
  case (Cons row rows)
  obtain r where r: "scrape_row lname lid di hi si ai hxg axg row = Inr r"
    using scrape_row_total by blast
  show ?case by (cases r) (simp_all add: r Cons.IH)
qed

lemma scrape_rows_member:
  assumes "scrape_rows lname lid di hi si ai hxg axg rows [] = Inr ms" and "m \<in> set ms"
  shows "\<exists>row\<in>set rows. scrape_row lname lid di hi si ai hxg axg row = Inr (Some m)"
proof -
  from assms have "m \<in> set (concat (map (\<lambda>row. case scrape_row lname lid di hi si ai hxg axg row of
                                      Inr (Some m) \<Rightarrow> [m] | _ \<Rightarrow> []) rows))"
    by (simp add: scrape_rows_concat)
  then obtain row where row: "row \<in> set rows"
    and "m \<in> set (case scrape_row lname lid di hi si ai hxg axg row of
                      Inr (Some m) \<Rightarrow> [m] | _ \<Rightarrow> [])"
    by auto
  then have "scrape_row lname lid di hi si ai hxg axg row = Inr (Some m)"
    by (auto split: sum.splits option.splits)
  with row show ?thesis by blast
qed

lemma scrape_rows_drop:
  assumes "scrape_row lname lid di hi si ai hxg axg row = Inr None"
  shows "scrape_rows lname lid di hi si ai hxg axg (rs1 @ row # rs2) acc =
         scrape_rows lname lid di hi si ai hxg axg (rs1 @ rs2) acc"
  unfolding scrape_rows_concat using assms by simp

lemma dom_fold_col:
  "dom (fold (\<lambda>(idx, header) m. m(header \<mapsto> idx)) (enumerate n hs) m0) = dom m0 \<union> set hs"
  by (induction hs arbitrary: n m0) auto

lemma col_map_None: "col_map headers k = None \<longleftrightarrow> k \<notin> set headers"
proof -
  have "dom (col_map headers) = set headers" by (simp add: col_map_def dom_fold_col)
  then show ?thesis by (metis domIff)
qed

lemma scrape_table_member:
  assumes "scrape_table lname lid tbl = Inr ms" and "m \<in> set ms"
  shows "\<exists>di hi si ai hxg axg row. scrape_row lname lid di hi si ai hxg axg row = Inr (Some m)"
proof -
  from assms obtain di hi si ai hxg axg rows where
    "scrape_rows lname lid di hi si ai hxg axg rows [] = Inr ms"
    by (auto simp: scrape_table_def split: option.splits sum.splits)
  from scrape_rows_member [OF this assms(2)] show ?thesis by blast
qed

lemma scrape_league_table:
  assumes "scrape_league lname f = Inr ms" and "m \<in> set ms"
  shows "\<exists>lid tbl. map_of LEAGUES lname = Some lid \<and> scrape_table lname lid tbl = Inr ms"
  using assms by (auto simp: scrape_league_def split: option.splits fetched.splits if_splits)

lemma scrape_table_drop:
  assumes "thead tbl = Some hrows" and "tbody tbl = Some (rs1 @ row # rs2)"
    and "col_map (last hrows) (str ''Score'') = Some si"
    and "length (cells row) \<le> si \<or> (\<exists>e. parse_score (cells row ! si) = Inl e)"
  shows "scrape_table lname lid (tbl\<lparr>tbody := Some (rs1 @ rs2)\<rparr>) = scrape_table lname lid tbl"
proof -
  have bad: "scrape_row lname lid di hi si ai hxg axg row = Inr None" for di hi ai hxg axg
    using assms(4) by (intro scrape_row_bad_score) blast
  show ?thesis
    using assms(1-3)
    by (auto simp: scrape_table_def py_last_def scrape_rows_drop [OF bad]
             split: option.splits list.splits)
qed

text \<open>The scraper of \<open>max.py\<close> returns what that of \<open>app.py\<close> returns, in its own columns.\<close>

lemma scrape_row_max_eq:
  "scrape_row_max lname di hi si ai hxg axg row =
     (case scrape_row lname lid di hi si ai hxg axg row of
        Inl e \<Rightarrow> Inl e
      | Inr r \<Rightarrow> Inr (map_option as_max r))"
proof (cases "row_fixture di hi si ai hxg axg (cells row)")
  case (Inl e)
  then show ?thesis by (cases e) (simp_all add: scrape_row_max_def scrape_row_def)
next
  case (Inr r)
  then show ?thesis
    by (cases r) (simp_all add: scrape_row_max_def scrape_row_def as_max_def)
qed

lemma scrape_rows_max_eq:
  "scrape_rows_max lname di hi si ai hxg axg rows (map as_max acc) =
     (case scrape_rows lname lid di hi si ai hxg axg rows acc of
        Inl e \<Rightarrow> Inl e
      | Inr ms \<Rightarrow> Inr (map as_max ms))"
proof (induction rows arbitrary: acc)
  case Nil
  then show ?case by simp
next
  case (Cons row rows)
  obtain r where r: "scrape_row lname lid di hi si ai hxg axg row = Inr r"
    using scrape_row_total by blast
  show ?case
  proof (cases r)
    case None
    with r Cons.IH [of acc] show ?thesis
      by (simp add: scrape_row_max_eq [where lid = lid])
  next
    case (Some m)
    with r Cons.IH [of "acc @ [m]"] show ?thesis
      by (simp add: scrape_row_max_eq [where lid = lid])
  qed
qed

lemma scrape_table_max_eq:
  "scrape_table_max lname tbl =
     (case scrape_table lname lid tbl of
        Inl e \<Rightarrow> Inl e
      | Inr ms \<Rightarrow> Inr (map as_max ms))"
  using scrape_rows_max_eq [where acc = "[]" and lname = lname and lid = lid]
  by (simp add: scrape_table_max_def scrape_table_def
           split: option.splits sum.splits)

lemma scrape_league_max_eq:
  "scrape_league_max lname f =
     (case scrape_league lname f of
        Inl e \<Rightarrow> Inl e
      | Inr ms \<Rightarrow> Inr (map as_max ms))"
  by (simp add: scrape_league_max_def scrape_league_def scrape_table_max_eq [where lname = lname]
           split: option.splits fetched.splits)

text \<open>
  Where \<open>scrape_league\<close> does return the empty frame: the fetch raised, the status is not
  200, the schedule div or its table is missing, the table has no \<open>thead\<close>, or the last
  header row has no cell.
\<close>

lemma scrape_league_recovered:
  assumes "lname \<in> fst ` set LEAGUES"
    and "f = Raised \<or> (\<exists>c soup. f = Response c soup \<and> c \<noteq> 200)
         \<or> f = Response 200 None \<or> f = Response 200 (Some None)
         \<or> (\<exists>tbl. f = Response 200 (Some (Some tbl)) \<and> thead tbl = None)
         \<or> (\<exists>tbl hrows. f = Response 200 (Some (Some tbl)) \<and> thead tbl = Some hrows
                \<and> hrows \<noteq> [] \<and> last hrows = [])"
  shows "scrape_league lname f = Inr []"
proof -
  from assms(1) obtain lid where lid: "map_of LEAGUES lname = Some lid"
    by (metis domD dom_map_of_conv_image_fst)
  have e: "col_map [] k = None" for k by (simp add: col_map_def)
  from assms(2) lid show ?thesis
    by (auto simp: scrape_league_def scrape_table_def py_last_def e split: list.splits)
qed

text \<open>
  Which cell the two expected-goals values are read from, by the positions of the columns
  named \<open>xG\<close>.
\<close>

lemma xg_text_cases:
  "xg_indices headers = [] \<Longrightarrow> xg_text (home_xg_idx headers) cols = []"
  "length (xg_indices headers) < 2 \<Longrightarrow> xg_text (away_xg_idx headers) cols = []"
  "xg_indices headers = 0 # js \<Longrightarrow> xg_text (home_xg_idx headers) cols = []"
  "xg_indices headers = i # js \<Longrightarrow> 0 < i \<Longrightarrow> i < length cols
     \<Longrightarrow> xg_text (home_xg_idx headers) cols = cols ! i"
  "xg_indices headers = i # j # js \<Longrightarrow> 0 < j \<Longrightarrow> j < length cols
     \<Longrightarrow> xg_text (away_xg_idx headers) cols = cols ! j"
  by (simp_all add: xg_text_def home_xg_idx_def away_xg_idx_def)

section \<open>Properties of \<open>scrape_league\<close>\<close>

text \<open>
  C5. The score cell. A row that is not a spacer and has enough cells, with score text
  \<open>2-2\<close>, is stored with \<open>home_score = 2\<close> and \<open>away_score = 2\<close>, and with score text
  \<open>3\<close>, en-dash, \<open>0\<close> with \<open>home_score = 3\<close> and \<open>away_score = 0\<close>. A row whose score
  cell is missing, empty, without separator, or not convertible (such as \<open>postponed\<close>) is
  passed over without an exception. When the text has an en-dash, the en-dash is the
  separator, also when a hyphen is present, as in \<open>1-2\<close>, en-dash, \<open>3\<close>.
\<close>

theorem score_cell_parsing:
  "(str ''spacer'' \<notin> set (classes row) \<and> max (max (max di hi) si) ai < length (cells row) \<longrightarrow>
      (cells row ! si = str ''2-2'' \<longrightarrow>
         (\<exists>m. scrape_row lname lid di hi si ai hxg axg row = Inr (Some m)
               \<and> home_score m = 2 \<and> away_score m = 2))
    \<and> (cells row ! si = str ''3'' @ en_dash # str ''0'' \<longrightarrow>
         (\<exists>m. scrape_row lname lid di hi si ai hxg axg row = Inr (Some m)
               \<and> home_score m = 3 \<and> away_score m = 0)))
   \<and> (length (cells row) \<le> si \<or> cells row ! si = []
        \<or> (en_dash \<notin> set (cells row ! si) \<and> hyphen \<notin> set (cells row ! si))
        \<or> (\<exists>e. parse_score (cells row ! si) = Inl e)
        \<or> cells row ! si = str ''postponed''
      \<longrightarrow> scrape_row lname lid di hi si ai hxg axg row = Inr None)
   \<and> (en_dash \<in> set sc \<longrightarrow> split_score sc = unpack2 (split sc en_dash))
   \<and> split_score (str ''1-2'' @ en_dash # str ''3'') = Inr (str ''1-2'', str ''3'')"
proof -
  have a: "parse_score (str ''2-2'') = Inr (2, 2)" by (simp add: py_eval)
  have b: "parse_score (str ''3'' @ en_dash # str ''0'') = Inr (3, 0)" by (simp add: py_eval)
  have c: "parse_score (str ''postponed'') = Inl ValueError" by (simp add: py_eval)
  have d: "split_score (str ''1-2'' @ en_dash # str ''3'') = Inr (str ''1-2'', str ''3'')"
    by (simp add: py_eval)
  have sa: "hyphen \<in> set (str ''2-2'')" by (simp add: py_eval)
  have sb: "en_dash \<in> set (str ''3'' @ en_dash # str ''0'')" by simp
  have 1: "cells row ! si = str ''2-2'' \<longrightarrow>
         (\<exists>m. scrape_row lname lid di hi si ai hxg axg row = Inr (Some m)
               \<and> home_score m = 2 \<and> away_score m = 2)"
    if "str ''spacer'' \<notin> set (classes row)" "max (max (max di hi) si) ai < length (cells row)"
    using scrape_row_good_score [OF that, of 2 2] a sa by auto
  have 2: "cells row ! si = str ''3'' @ en_dash # str ''0'' \<longrightarrow>
         (\<exists>m. scrape_row lname lid di hi si ai hxg axg row = Inr (Some m)
               \<and> home_score m = 3 \<and> away_score m = 0)"
    if "str ''spacer'' \<notin> set (classes row)" "max (max (max di hi) si) ai < length (cells row)"
    using scrape_row_good_score [OF that, of 3 0] b sb by auto
  have 3: "scrape_row lname lid di hi si ai hxg axg row = Inr None"
    if "length (cells row) \<le> si \<or> cells row ! si = []
        \<or> (en_dash \<notin> set (cells row ! si) \<and> hyphen \<notin> set (cells row ! si))
        \<or> (\<exists>e. parse_score (cells row ! si) = Inl e)
        \<or> cells row ! si = str ''postponed''"
  proof -
    from that c have "length (cells row) \<le> si \<or> cells row ! si = []
        \<or> (en_dash \<notin> set (cells row ! si) \<and> hyphen \<notin> set (cells row ! si))
        \<or> (\<exists>e. parse_score (cells row ! si) = Inl e)" by auto
    then show ?thesis by (rule scrape_row_bad_score)
  qed
  have 4: "en_dash \<in> set sc \<longrightarrow> split_score sc = unpack2 (split sc en_dash)"
    by (simp add: split_score_def)
  from 1 2 3 4 d show ?thesis by blast
qed

text \<open>The theorem at concrete rows, with indices 0 to 3 for date, home, score and away.\<close>

theorem score_cell_parsing_witness:
  "(\<exists>m. scrape_row (str ''Eredivisie'') 23 0 1 2 3 None None
          \<lparr>classes = [], cells = [str ''2024-05-01'', str ''Ajax'', str ''2-2'', str ''PSV'']\<rparr>
        = Inr (Some m) \<and> home_score m = 2 \<and> away_score m = 2)
   \<and> (\<exists>m. scrape_row (str ''Eredivisie'') 23 0 1 2 3 None None
          \<lparr>classes = [],
            cells = [str ''2024-05-01'', str ''Ajax'', str ''3'' @ en_dash # str ''0'', str ''PSV'']\<rparr>
        = Inr (Some m) \<and> home_score m = 3 \<and> away_score m = 0)
   \<and> scrape_row (str ''Eredivisie'') 23 0 1 2 3 None None postponed_row = Inr None
   \<and> split_score (str ''-1'' @ en_dash # str ''2'')
       = unpack2 (split (str ''-1'' @ en_dash # str ''2'') en_dash)"
proof -
  have 1: "\<exists>m. scrape_row (str ''Eredivisie'') 23 0 1 2 3 None None
          \<lparr>classes = [], cells = [str ''2024-05-01'', str ''Ajax'', str ''2-2'', str ''PSV'']\<rparr>
        = Inr (Some m) \<and> home_score m = 2 \<and> away_score m = 2"
    using score_cell_parsing [where di = 0 and hi = 1 and si = 2 and ai = 3
        and row = "\<lparr>classes = [], cells = [str ''2024-05-01'', str ''Ajax'', str ''2-2'', str ''PSV'']\<rparr>"
        and lname = "str ''Eredivisie''" and lid = 23 and hxg = None and axg = None]
    by simp
  have 2: "\<exists>m. scrape_row (str ''Eredivisie'') 23 0 1 2 3 None None
          \<lparr>classes = [],
            cells = [str ''2024-05-01'', str ''Ajax'', str ''3'' @ en_dash # str ''0'', str ''PSV'']\<rparr>
        = Inr (Some m) \<and> home_score m = 3 \<and> away_score m = 0"
    using score_cell_parsing [where di = 0 and hi = 1 and si = 2 and ai = 3
        and row = "\<lparr>classes = [], cells = [str ''2024-05-01'', str ''Ajax'', str ''3'' @ en_dash # str ''0'', str ''PSV'']\<rparr>"
        and lname = "str ''Eredivisie''" and lid = 23 and hxg = None and axg = None]
    by simp
  have 3: "scrape_row (str ''Eredivisie'') 23 0 1 2 3 None None postponed_row = Inr None"
    using score_cell_parsing [where si = 2 and row = postponed_row]
    by (simp add: postponed_row_def)
  have 4: "split_score (str ''-1'' @ en_dash # str ''2'')
       = unpack2 (split (str ''-1'' @ en_dash # str ''2'') en_dash)"
    using score_cell_parsing [where sc = "str ''-1'' @ en_dash # str ''2''"] by simp
  from 1 2 3 4 show ?thesis by blast
qed

text \<open>
  C1, as amended. Every record \<open>scrape_league\<close> returns carries the league name passed
  in and the identifier \<open>LEAGUES\<close> gives for it; its two scores are the integers the
  whole score text converts to; and they are non-negative unless the score text contains
  both an en-dash and a hyphen. A row whose score cell is missing or fails to convert
  leaves no trace: the frame is the one obtained from the table without that row.
  \<open>scrape_league\<close> of \<open>max.py\<close> returns the same records under its own column names.
\<close>

theorem scrape_league_records:
  assumes "scrape_league lname f = Inr ms"
  shows "(\<forall>m\<in>set ms.
            league_name m = lname \<and> map_of LEAGUES lname = Some (league_id m)
            \<and> parse_score (score m) = Inr (home_score m, away_score m)
            \<and> (en_dash \<notin> set (score m) \<or> hyphen \<notin> set (score m)
                 \<longrightarrow> 0 \<le> home_score m \<and> 0 \<le> away_score m))
       \<and> (\<forall>tbl hrows si rs1 row rs2.
            f = Response 200 (Some (Some tbl)) \<and> thead tbl = Some hrows
            \<and> tbody tbl = Some (rs1 @ row # rs2)
            \<and> col_map (last hrows) (str ''Score'') = Some si
            \<and> (length (cells row) \<le> si \<or> (\<exists>e. parse_score (cells row ! si) = Inl e))
            \<longrightarrow> scrape_league lname (Response 200 (Some (Some (tbl\<lparr>tbody := Some (rs1 @ rs2)\<rparr>))))
                  = Inr ms)
       \<and> scrape_league_max lname f = Inr (map as_max ms)"
proof (intro conjI ballI allI impI)
  from assms show "scrape_league_max lname f = Inr (map as_max ms)"
    by (simp add: scrape_league_max_eq)
next
  fix m assume m: "m \<in> set ms"
  from scrape_league_table [OF assms m] obtain lid tbl where
    lid: "map_of LEAGUES lname = Some lid" and t: "scrape_table lname lid tbl = Inr ms" by blast
  from scrape_table_member [OF t m] obtain di hi si ai hxg axg row where
    r: "scrape_row lname lid di hi si ai hxg axg row = Inr (Some m)" by blast
  note S = scrape_row_Some [OF r]
  from S show "league_name m = lname" by blast
  from S lid show "map_of LEAGUES lname = Some (league_id m)" by simp
  from S show p: "parse_score (score m) = Inr (home_score m, away_score m)" by blast
  assume "en_dash \<notin> set (score m) \<or> hyphen \<notin> set (score m)"
  with parse_score_negative [OF p] show "0 \<le> home_score m" by fastforce
next
  fix m assume m: "m \<in> set ms"
  from scrape_league_table [OF assms m] obtain lid tbl where
    lid: "map_of LEAGUES lname = Some lid" and t: "scrape_table lname lid tbl = Inr ms" by blast
  from scrape_table_member [OF t m] obtain di hi si ai hxg axg row where
    r: "scrape_row lname lid di hi si ai hxg axg row = Inr (Some m)" by blast
  from scrape_row_Some [OF r]
  have p: "parse_score (score m) = Inr (home_score m, away_score m)" by blast
  assume "en_dash \<notin> set (score m) \<or> hyphen \<notin> set (score m)"
  with parse_score_negative [OF p] show "0 \<le> away_score m" by fastforce
next
  fix tbl hrows si rs1 row rs2
  assume h: "f = Response 200 (Some (Some tbl)) \<and> thead tbl = Some hrows
            \<and> tbody tbl = Some (rs1 @ row # rs2)
            \<and> col_map (last hrows) (str ''Score'') = Some si
            \<and> (length (cells row) \<le> si \<or> (\<exists>e. parse_score (cells row ! si) = Inl e))"
  then have "scrape_table lname lid (tbl\<lparr>tbody := Some (rs1 @ rs2)\<rparr>) = scrape_table lname lid tbl"
    for lid by (intro scrape_table_drop) auto
  with assms h show "scrape_league lname (Response 200 (Some (Some (tbl\<lparr>tbody := Some (rs1 @ rs2)\<rparr>)))) = Inr ms"
    by (auto simp: scrape_league_def split: option.splits)
qed

text \<open>
  The theorem on a table with one postponed and one played fixture: one record, and the
  same record from the table without the postponed row.
\<close>

theorem scrape_league_records_witness:
  "scrape_league (str ''Eredivisie'')
     (Response 200 (Some (Some \<lparr>thead = thead no_tbody_table,
                                 tbody = Some ([] @ postponed_row # [played_row])\<rparr>)))
     = Inr [played_match]
   \<and> league_name played_match = str ''Eredivisie''
   \<and> map_of LEAGUES (str ''Eredivisie'') = Some (league_id played_match)
   \<and> parse_score (score played_match) = Inr (home_score played_match, away_score played_match)
   \<and> hyphen \<in> set (score played_match) \<and> en_dash \<notin> set (score played_match)
   \<and> 0 \<le> home_score played_match \<and> 0 \<le> away_score played_match
   \<and> (\<exists>e. parse_score (cells postponed_row ! 2) = Inl e)
   \<and> scrape_league (str ''Eredivisie'')
        (Response 200 (Some (Some \<lparr>thead = thead no_tbody_table, tbody = Some [played_row]\<rparr>)))
     = Inr [played_match]
   \<and> scrape_league_max (str ''Eredivisie'')
        (Response 200 (Some (Some \<lparr>thead = thead no_tbody_table,
                                    tbody = Some ([] @ postponed_row # [played_row])\<rparr>)))
     = Inr [as_max played_match]"
proof -
  let ?tbl = "\<lparr>thead = thead no_tbody_table, tbody = Some ([] @ postponed_row # [played_row])\<rparr>"
  have run: "scrape_league (str ''Eredivisie'') (Response 200 (Some (Some ?tbl)))
     = Inr [played_match]"
    by (simp add: no_tbody_table_def postponed_row_def played_row_def played_match_def scrape_eval)
  note T = scrape_league_records [OF run]
  have si: "col_map (last [[str ''Date'', str ''Home'', str ''Score'', str ''Away'']]) (str ''Score'')
            = Some 2"
    by (simp add: col_map_def str_def)
  have bad: "\<exists>e. parse_score (cells postponed_row ! 2) = Inl e"
    by (simp add: postponed_row_def py_eval)
  from T have a: "league_name played_match = str ''Eredivisie''
      \<and> map_of LEAGUES (str ''Eredivisie'') = Some (league_id played_match)
      \<and> parse_score (score played_match) = Inr (home_score played_match, away_score played_match)
      \<and> (en_dash \<notin> set (score played_match) \<or> hyphen \<notin> set (score played_match)
           \<longrightarrow> 0 \<le> home_score played_match \<and> 0 \<le> away_score played_match)"
    by simp
  have seps: "hyphen \<in> set (score played_match) \<and> en_dash \<notin> set (score played_match)"
    by (simp add: played_match_def py_eval)
  note U = T [THEN conjunct2, THEN conjunct1, rule_format, where tbl = ?tbl
      and hrows = "[[str ''Date'', str ''Home'', str ''Score'', str ''Away'']]" and si = 2
      and ?rs1.0 = "[]" and row = postponed_row and ?rs2.0 = "[played_row]"]
  from U si bad
  have b: "scrape_league (str ''Eredivisie'')
        (Response 200 (Some (Some (?tbl\<lparr>tbody := Some ([] @ [played_row])\<rparr>)))) = Inr [played_match]"
    by (simp add: no_tbody_table_def)
  from T have c: "scrape_league_max (str ''Eredivisie'') (Response 200 (Some (Some ?tbl)))
     = Inr [as_max played_match]"
    by simp
  from run a seps bad b c show ?thesis by simp
qed

text \<open>
  C1 as stated fails: the score text \<open>-1\<close>, en-dash, \<open>2\<close> splits at the en-dash, and
  \<open>int('-1')\<close> is \<open>-1\<close>; the record is stored with a negative \<open>home_score\<close>.
\<close>

theorem negative_score_stored:
  "scrape_league (str ''Eredivisie'') (Response 200 (Some (Some negative_score_table)))
     = Inr [negative_score_match]
   \<and> home_score negative_score_match < 0"
  by (simp add: negative_score_table_def negative_score_match_def scrape_eval)

text \<open>
  Where the table has a header row, a missing required column is handled: for a league of
  \<open>LEAGUES\<close>, when one of the columns \<open>Date\<close>, \<open>Home\<close>, \<open>Score\<close>, \<open>Away\<close> is not among
  the names of the last header row, \<open>scrape_league\<close> returns the empty frame, without an
  exception, whatever the body holds.
\<close>

lemma missing_required_column:
  assumes "lname \<in> fst ` set LEAGUES"
    and "thead tbl = Some hrows" and "hrows \<noteq> []"
    and "\<not> {str ''Date'', str ''Home'', str ''Score'', str ''Away''} \<subseteq> set (last hrows)"
  shows "scrape_league lname (Response 200 (Some (Some tbl))) = Inr []"
proof -
  from assms(1) obtain lid where lid: "map_of LEAGUES lname = Some lid"
    by (metis domD dom_map_of_conv_image_fst)
  from assms(3) have l: "py_last hrows = Inr (last hrows)"
    by (cases hrows) (simp_all add: py_last_def)
  from assms(4) have "col_map (last hrows) (str ''Date'') = None
      \<or> col_map (last hrows) (str ''Home'') = None
      \<or> col_map (last hrows) (str ''Score'') = None
      \<or> col_map (last hrows) (str ''Away'') = None"
    by (auto simp: col_map_None)
  then have "scrape_table lname lid tbl = Inr []"
    using assms(2) l by (auto simp: scrape_table_def split: option.splits)
  with lid show ?thesis by (simp add: scrape_league_def)
qed

text \<open>The lemma on a table without a \<open>Score\<close> column and with a body row.\<close>

lemma missing_required_column_example:
  "scrape_league (str ''Eredivisie'') (Response 200 (Some (Some no_score_table))) = Inr []"
proof -
  have 1: "str ''Eredivisie'' \<in> fst ` set LEAGUES" by (simp add: LEAGUES_def str_def)
  have 2: "thead no_score_table = Some [[str ''Date'', str ''Home'', str ''Away'']]"
    by (simp add: no_score_table_def)
  have 3: "[[str ''Date'', str ''Home'', str ''Away'']] \<noteq> []" by simp
  have "str ''Score'' \<notin> set (last [[str ''Date'', str ''Home'', str ''Away'']])"
    by (simp add: str_def)
  then have 5: "\<not> {str ''Date'', str ''Home'', str ''Score'', str ''Away''}
                  \<subseteq> set (last [[str ''Date'', str ''Home'', str ''Away'']])"
    by blast
  from missing_required_column [OF 1 2 3 5] show ?thesis .
qed

text \<open>
  And a \<open>thead\<close> without any row raises \<open>IndexError\<close> for every league of \<open>LEAGUES\<close>,
  whatever the body holds: the last header row is taken before the columns are looked up.
\<close>

lemma empty_thead_raises:
  assumes "lname \<in> fst ` set LEAGUES" and "thead tbl = Some []"
  shows "scrape_league lname (Response 200 (Some (Some tbl))) = Inl IndexError"
proof -
  from assms(1) obtain lid where lid: "map_of LEAGUES lname = Some lid"
    by (metis domD dom_map_of_conv_image_fst)
  from assms(2) have "scrape_table lname lid tbl = Inl IndexError"
    by (simp add: scrape_table_def py_last_def)
  with lid show ?thesis by (simp add: scrape_league_def)
qed

text \<open>
  C8 fails on the code. When the \<open>thead\<close> has no row, none of \<open>Date\<close>, \<open>Home\<close>,
  \<open>Score\<close>, \<open>Away\<close> is in the header, and \<open>scrape_league\<close> does not return the empty
  frame: \<open>thead.find_all('tr')[-1]\<close> raises \<open>IndexError\<close> before the test for the
  required columns is reached. Here the body has a well-formed row.
\<close>

theorem missing_header_row_raises:
  "thead headerless_table = Some []
   \<and> scrape_league (str ''Serie A'') (Response 200 (Some (Some headerless_table)))
       = Inl IndexError
   \<and> scrape_league_max (str ''Serie A'') (Response 200 (Some (Some headerless_table)))
       = Inl IndexError"
proof -
  have "scrape_league (str ''Serie A'') (Response 200 (Some (Some headerless_table)))
          = Inl IndexError"
    by (simp add: headerless_table_def played_row_def scrape_eval)
  then show ?thesis by (simp add: scrape_league_max_eq headerless_table_def)
qed

text \<open>
  C2 fails on the code. With all four required columns in the header and no \<open>tbody\<close>
  in the table, \<open>tbody.find_all\<close> raises \<open>AttributeError\<close>; with a \<open>thead\<close> that has no
  row, \<open>thead.find_all('tr')[-1]\<close> raises \<open>IndexError\<close>. Both statements are outside
  every \<open>try\<close>, so the exception leaves \<open>scrape_league\<close>, in \<open>app.py\<close> and in
  \<open>max.py\<close>.
\<close>

theorem scrape_league_raises:
  "scrape_league (str ''Premier League'') (Response 200 (Some (Some no_tbody_table)))
     = Inl AttributeError
   \<and> scrape_league (str ''Premier League'') (Response 200 (Some (Some empty_thead_table)))
     = Inl IndexError
   \<and> scrape_league_max (str ''Premier League'') (Response 200 (Some (Some no_tbody_table)))
     = Inl AttributeError
   \<and> scrape_league_max (str ''Premier League'') (Response 200 (Some (Some empty_thead_table)))
     = Inl IndexError"
proof -
  have "scrape_league (str ''Premier League'') (Response 200 (Some (Some no_tbody_table)))
          = Inl AttributeError"
    and "scrape_league (str ''Premier League'') (Response 200 (Some (Some empty_thead_table)))
          = Inl IndexError"
    by (simp_all add: no_tbody_table_def empty_thead_table_def scrape_eval)
  then show ?thesis by (simp add: scrape_league_max_eq)
qed

text \<open>
  C6 fails on the code when the first \<open>xG\<close> column is the first column of the table:
  its index \<open>0\<close> is tested for truth, and \<open>home_xg\<close> is the empty string although the
  cell holds \<open>1.2\<close>. The second \<open>xG\<close> column is read as claimed.
\<close>

theorem xg_first_column_ignored:
  "scrape_league (str ''Eredivisie'') (Response 200 (Some (Some xg_first_table)))
     = Inr [xg_first_match]
   \<and> xg_indices (last (the (thead xg_first_table))) = [0, 5]
   \<and> home_xg xg_first_match = []"
  by (simp add: xg_first_table_def xg_first_match_def scrape_eval)

section \<open>Results of a team and streaks\<close>

lemma mset_sort_values_desc: "mset (sort_values_desc col xs) = mset xs"
  by (simp add: sort_values_desc_def)

lemma length_sort_values_desc: "length (sort_values_desc col xs) = length xs"
  by (simp add: sort_values_desc_def)

lemma set_sort_values_desc: "set (sort_values_desc col xs) = set xs"
  by (simp add: sort_values_desc_def)

lemma sorted_sort_values_desc:
  "sorted_wrt (\<lambda>a b. col b \<le> col a) (sort_values_desc col xs)"
proof -
  have "sorted (map col (sort_key col (rev xs)))" by simp
  then have "sorted_wrt (\<lambda>a b. col a \<le> col b) (sort_key col (rev xs))"
    by (simp add: sorted_map)
  then show ?thesis by (simp add: sort_values_desc_def sorted_wrt_rev)
qed

lemma insort_key_map:
  "insort_key col (g x) (map g xs) = map g (insort_key (\<lambda>y. col (g y)) x xs)"
  by (induction xs) simp_all

lemma sort_key_map:
  "sort_key col (map g xs) = map g (sort_key (\<lambda>y. col (g y)) xs)"
  by (induction xs) (simp_all add: insort_key_map)

lemma sort_values_desc_map:
  "sort_values_desc col (map g xs) = map g (sort_values_desc (\<lambda>y. col (g y)) xs)"
  by (simp add: sort_values_desc_def sort_key_map rev_map)

lemma home_row_fields:
  "row_date (home_row m) = date m \<and> opponent (home_row m) = away_team m
   \<and> location (home_row m) = H
   \<and> team_score (home_row m) = home_score m \<and> opp_score (home_row m) = away_score m
   \<and> team_xg (home_row m) = home_xg m \<and> opp_xg (home_row m) = away_xg m
   \<and> row_league_name (home_row m) = league_name m \<and> row_league_id (home_row m) = league_id m"
  by (simp add: home_row_def)

lemma away_row_fields:
  "row_date (away_row m) = date m \<and> opponent (away_row m) = home_team m
   \<and> location (away_row m) = A
   \<and> team_score (away_row m) = away_score m \<and> opp_score (away_row m) = home_score m
   \<and> team_xg (away_row m) = away_xg m \<and> opp_xg (away_row m) = home_xg m
   \<and> row_league_name (away_row m) = league_name m \<and> row_league_id (away_row m) = league_id m"
  by (simp add: away_row_def)

lemma mset_get_team_results:
  "mset (get_team_results df t) =
     image_mset home_row (filter_mset (\<lambda>m. home_team m = t) (mset df))
     + image_mset away_row (filter_mset (\<lambda>m. away_team m = t) (mset df))"
  by (simp add: get_team_results_def mset_sort_values_desc)

lemma set_get_team_results:
  "set (get_team_results df t) =
     home_row ` {m \<in> set df. home_team m = t} \<union> away_row ` {m \<in> set df. away_team m = t}"
  by (auto simp: get_team_results_def set_sort_values_desc)

lemma length_get_team_results:
  "length (get_team_results df t) =
     length (filter (\<lambda>m. home_team m = t) df) + length (filter (\<lambda>m. away_team m = t) df)"
  by (simp add: get_team_results_def length_sort_values_desc)

lemma length_filter_either:
  assumes "\<forall>m\<in>set df. \<not> (home_team m = t \<and> away_team m = t)"
  shows "length (filter (\<lambda>m. home_team m = t) df) + length (filter (\<lambda>m. away_team m = t) df)
         = length (filter (\<lambda>m. home_team m = t \<or> away_team m = t) df)"
  using assms by (induction df) auto

lemma result_get_team_results:
  assumes "r \<in> set (get_team_results df t)"
  shows "result r = (if team_score r > opp_score r then W
                     else if team_score r < opp_score r then L else D)"
  using assms
  by (auto simp: set_get_team_results home_row_def away_row_def result_of_def)

lemma head_nonempty:
  assumes "1 \<le> n" and "n \<le> int (length xs)"
  shows "head xs n = take (nat n) xs" and "head xs n \<noteq> []" and "hd (head xs n) = hd xs"
proof -
  from assms show 1: "head xs n = take (nat n) xs" by (simp add: head_def)
  from assms have "xs \<noteq> []" by auto
  with assms 1 show "head xs n \<noteq> []" by simp
  from assms 1 show "hd (head xs n) = hd xs" by (cases xs) (auto simp: take_Cons')
qed

lemma py_index_0: "xs \<noteq> [] \<Longrightarrow> py_index xs 0 = Inr (hd xs)"
  by (cases xs) (simp_all add: py_index_def)

lemma check_win_positive:
  assumes "1 \<le> wc" and "wc \<le> int (length results)"
  shows "check_win t results wc ws =
         Inr (ws @ (if map result (head results wc) = replicate (nat wc) W
                    then [streak_of t (head results wc)] else []))"
  using assms head_nonempty(2) [OF assms]
  by (simp add: check_win_def Let_def py_index_0 streak_of_def)

lemma check_loss_positive:
  assumes "1 \<le> lc" and "lc \<le> int (length results)"
  shows "check_loss t results lc ls =
         Inr (ls @ (if map result (head results lc) = replicate (nat lc) L
                    then [streak_of t (head results lc)] else []))"
  using assms head_nonempty(2) [OF assms]
  by (simp add: check_loss_def Let_def py_index_0 streak_of_def)

lemma streaks_step_positive:
  assumes "1 \<le> wc" and "1 \<le> lc"
  shows "streaks_step df wc lc t acc =
         Inr (fst acc @ wins_of df wc lc t, snd acc @ losses_of df wc lc t)"
proof (cases "int (length (get_team_results df t)) < max wc lc")
  case True
  then have "\<not> (wc \<le> int (length (get_team_results df t))
                   \<and> lc \<le> int (length (get_team_results df t)))"
    by (auto simp: max_def split: if_splits)
  with True show ?thesis
    by (auto simp: streaks_step_def wins_of_def losses_of_def Let_def)
next
  case False
  then have w: "wc \<le> int (length (get_team_results df t))"
    and l: "lc \<le> int (length (get_team_results df t))"
    by (auto simp: max_def split: if_splits)
  from w l have p: "max wc lc \<le> int (length (get_team_results df t))" by simp
  show ?thesis
    unfolding streaks_step_def Let_def wins_of_def losses_of_def
      check_win_positive [OF assms(1) w] check_loss_positive [OF assms(2) l]
    using p False by (simp del: max_less_iff_conj)
qed

lemma streaks_loop_positive:
  assumes "1 \<le> wc" and "1 \<le> lc"
  shows "streaks_loop df wc lc ts acc =
         Inr (fst acc @ concat (map (wins_of df wc lc) ts),
              snd acc @ concat (map (losses_of df wc lc) ts))"
  by (induction ts arbitrary: acc) (simp_all add: streaks_step_positive [OF assms])

lemma find_game_streaks_positive:
  assumes "1 \<le> wc" and "1 \<le> lc"
  shows "find_game_streaks teams df wc lc =
         Inr (concat (map (wins_of df wc lc) teams), concat (map (losses_of df wc lc) teams))"
  by (simp add: find_game_streaks_def streaks_loop_positive [OF assms])

lemma team_wins_of: "g \<in> set (wins_of df wc lc t) \<Longrightarrow> team g = t"
  by (auto simp: wins_of_def Let_def streak_of_def split: if_splits)

lemma team_losses_of: "g \<in> set (losses_of df wc lc t) \<Longrightarrow> team g = t"
  by (auto simp: losses_of_def Let_def streak_of_def split: if_splits)

lemma results_in_teams:
  assumes "get_team_results df t \<noteq> []"
  shows "t \<in> teams_of df"
proof -
  from assms have "set (get_team_results df t) \<noteq> {}" by simp
  then show ?thesis by (auto simp: set_get_team_results teams_of_def)
qed

lemma head_prefix:
  assumes "head xs n \<noteq> []"
  shows "xs \<noteq> [] \<and> hd (head xs n) = hd xs"
proof -
  obtain k where k: "head xs n = take k xs" by (cases "0 \<le> n") (auto simp: head_def)
  with assms have "xs \<noteq> []" "k \<noteq> 0" by auto
  with k show ?thesis by (cases xs) (auto simp: take_Cons')
qed

lemma window_first:
  assumes "py_index (head xs n) 0 = Inr first" and "map result (head xs n) = replicate (nat n) x"
  shows "xs \<noteq> [] \<and> result (hd xs) = x"
proof -
  from assms(1) have ne: "head xs n \<noteq> []" by (auto simp: py_index_def split: if_splits)
  then obtain r rs where r: "head xs n = r # rs" by (cases "head xs n") auto
  with assms(2) have "result r = x" by (cases "nat n") auto
  with head_prefix [OF ne] r show ?thesis by simp
qed

lemma check_win_cases:
  assumes "check_win t results wc ws = Inr ws'"
  shows "ws' = ws \<or> (results \<noteq> [] \<and> result (hd results) = W \<and> (\<exists>g. ws' = ws @ [g] \<and> team g = t))"
proof (cases "int (length results) \<ge> wc
              \<and> map result (head results wc) = replicate (nat wc) W")
  case True
  with assms obtain first where f: "py_index (head results wc) 0 = Inr first"
    by (auto simp: check_win_def Let_def split: sum.splits)
  from window_first [OF f] True have "results \<noteq> [] \<and> result (hd results) = W" by blast
  moreover from assms True f have "\<exists>g. ws' = ws @ [g] \<and> team g = t"
    by (auto simp: check_win_def Let_def)
  ultimately show ?thesis by blast
next
  case False
  with assms show ?thesis by (auto simp: check_win_def Let_def split: if_splits)
qed

lemma check_loss_cases:
  assumes "check_loss t results lc ls = Inr ls'"
  shows "ls' = ls \<or> (results \<noteq> [] \<and> result (hd results) = L \<and> (\<exists>g. ls' = ls @ [g] \<and> team g = t))"
proof (cases "int (length results) \<ge> lc
              \<and> map result (head results lc) = replicate (nat lc) L")
  case True
  with assms obtain first where f: "py_index (head results lc) 0 = Inr first"
    by (auto simp: check_loss_def Let_def split: sum.splits)
  from window_first [OF f] True have "results \<noteq> [] \<and> result (hd results) = L" by blast
  moreover from assms True f have "\<exists>g. ls' = ls @ [g] \<and> team g = t"
    by (auto simp: check_loss_def Let_def)
  ultimately show ?thesis by blast
next
  case False
  with assms show ?thesis by (auto simp: check_loss_def Let_def split: if_splits)
qed

lemma check_win_leads:
  assumes "check_win t (get_team_results df t) wc ws = Inr ws'" and "\<forall>g\<in>set ws. leads df W g"
  shows "\<forall>g\<in>set ws'. leads df W g"
  using check_win_cases [OF assms(1)] assms(2) by (auto simp: leads_def)

lemma check_loss_leads:
  assumes "check_loss t (get_team_results df t) lc ls = Inr ls'" and "\<forall>g\<in>set ls. leads df L g"
  shows "\<forall>g\<in>set ls'. leads df L g"
  using check_loss_cases [OF assms(1)] assms(2) by (auto simp: leads_def)

lemma streaks_step_leads:
  assumes "streaks_step df wc lc t acc = Inr acc'"
    and "\<forall>g\<in>set (fst acc). leads df W g" and "\<forall>g\<in>set (snd acc). leads df L g"
  shows "(\<forall>g\<in>set (fst acc'). leads df W g) \<and> (\<forall>g\<in>set (snd acc'). leads df L g)"
proof (cases "int (length (get_team_results df t)) < max wc lc")
  case True
  with assms show ?thesis by (simp add: streaks_step_def Let_def)
next
  case False
  with assms(1) obtain ws' ls' where
    w: "check_win t (get_team_results df t) wc (fst acc) = Inr ws'" and
    l: "check_loss t (get_team_results df t) lc (snd acc) = Inr ls'" and
    a: "acc' = (ws', ls')"
    by (auto simp: streaks_step_def Let_def split: sum.splits)
  from check_win_leads [OF w assms(2)] check_loss_leads [OF l assms(3)] a
  show ?thesis by simp
qed

lemma streaks_loop_leads:
  assumes "streaks_loop df wc lc ts acc = Inr acc'"
    and "\<forall>g\<in>set (fst acc). leads df W g" and "\<forall>g\<in>set (snd acc). leads df L g"
  shows "(\<forall>g\<in>set (fst acc'). leads df W g) \<and> (\<forall>g\<in>set (snd acc'). leads df L g)"
  using assms
proof (induction ts arbitrary: acc)
  case Nil
  then show ?case by simp
next
  case (Cons t ts)
  from Cons.prems(1) obtain acc1 where
    s: "streaks_step df wc lc t acc = Inr acc1" and
    r: "streaks_loop df wc lc ts acc1 = Inr acc'"
    by (auto split: sum.splits)
  from streaks_step_leads [OF s Cons.prems(2,3)] Cons.IH [OF r] show ?case by blast
qed

lemma streaks_disjoint:
  assumes "find_game_streaks teams df wc lc = Inr (ws, ls)"
  shows "team ` set ws \<inter> team ` set ls = {}"
proof -
  from assms have "streaks_loop df wc lc teams ([], []) = Inr (ws, ls)"
    by (simp add: find_game_streaks_def)
  from streaks_loop_leads [OF this]
  have w: "\<forall>g\<in>set ws. leads df W g" and l: "\<forall>g\<in>set ls. leads df L g" by simp_all
  show ?thesis
  proof (rule ccontr)
    assume "team ` set ws \<inter> team ` set ls \<noteq> {}"
    then obtain g g' where "g \<in> set ws" "g' \<in> set ls" "team g = team g'" by auto
    with w l have "leads df W g" "leads df L g'" "team g = team g'" by auto
    then show False by (simp add: leads_def)
  qed
qed

lemma head_map: "head (map f xs) n = map f (head xs n)"
  by (simp add: head_def take_map)

lemma streaks_step_max_eq:
  "streaks_step_max df t acc = Inr (fst acc @ wins_max df t, snd acc @ losses_max df t)"
proof (cases "length (get_team_results_max df t) < 3")
  case True
  then show ?thesis by (simp add: streaks_step_max_def wins_max_def losses_max_def Let_def)
next
  case False
  then have "(1::int) \<le> 3" and "3 \<le> int (length (get_team_results_max df t))" by simp_all
  from head_nonempty(2) [OF this] have "head (get_team_results_max df t) 3 \<noteq> []" .
  with False show ?thesis
    by (simp add: streaks_step_max_def wins_max_def losses_max_def Let_def py_index_0
        streak_max_of_def)
qed

lemma streaks_loop_max_eq:
  "streaks_loop_max df ts acc =
     Inr (fst acc @ concat (map (wins_max df) ts), snd acc @ concat (map (losses_max df) ts))"
  by (induction ts arbitrary: acc) (simp_all add: streaks_step_max_eq)

lemma find_3_game_streaks_eq:
  "find_3_game_streaks teams df =
     Inr (concat (map (wins_max df) teams), concat (map (losses_max df) teams))"
  by (simp add: find_3_game_streaks_def streaks_loop_max_eq)

lemma get_team_results_as_max:
  "get_team_results_max (map as_max df) t = map row_as_max (get_team_results df t)"
proof -
  have h: "home_row_max (as_max m) = row_as_max (home_row m)" for m
    by (simp add: home_row_max_def home_row_def as_max_def row_as_max_def)
  have a: "away_row_max (as_max m) = row_as_max (away_row m)" for m
    by (simp add: away_row_max_def away_row_def as_max_def row_as_max_def)
  have d: "(\<lambda>y. row_date (row_as_max y)) = row_date"
    by (rule ext) (simp add: row_as_max_def)
  have fh: "(\<lambda>m. home_team m = t) \<circ> as_max = (\<lambda>m. home_team m = t)"
    by (rule ext) (simp add: as_max_def)
  have fa: "(\<lambda>m. away_team m = t) \<circ> as_max = (\<lambda>m. away_team m = t)"
    by (rule ext) (simp add: as_max_def)
  have "map home_row_max (filter (\<lambda>m. home_team m = t) (map as_max df))
          @ map away_row_max (filter (\<lambda>m. away_team m = t) (map as_max df))
        = map row_as_max (map home_row (filter (\<lambda>m. home_team m = t) df)
                          @ map away_row (filter (\<lambda>m. away_team m = t) df))"
    by (simp add: filter_map fh fa h a)
  then show ?thesis
    by (simp add: get_team_results_max_def get_team_results_def Let_def
        sort_values_desc_map d del: map_append)
qed

lemma three_times: "replicate (nat 3) x = [x, x, x]" "replicate 3 x = [x, x, x]"
  by (simp_all add: numeral_3_eq_3)

lemma wins_as_max: "wins_max (map as_max df) t = map streak_as_max (wins_of df 3 3 t)"
proof (cases "3 \<le> length (get_team_results df t)")
  case True
  then have "(1::int) \<le> 3" and "3 \<le> int (length (get_team_results df t))" by simp_all
  from head_nonempty(2) [OF this] have ne: "head (get_team_results df t) 3 \<noteq> []" .
  from True ne show ?thesis
    by (simp add: wins_max_def wins_of_def Let_def get_team_results_as_max head_map
        three_times streak_as_max_def streak_max_of_def streak_of_def hd_map row_as_max_def
        comp_def)
next
  case False
  then show ?thesis
    by (simp add: wins_max_def wins_of_def Let_def get_team_results_as_max)
qed

lemma losses_as_max: "losses_max (map as_max df) t = map streak_as_max (losses_of df 3 3 t)"
proof (cases "3 \<le> length (get_team_results df t)")
  case True
  then have "(1::int) \<le> 3" and "3 \<le> int (length (get_team_results df t))" by simp_all
  from head_nonempty(2) [OF this] have ne: "head (get_team_results df t) 3 \<noteq> []" .
  from True ne show ?thesis
    by (simp add: losses_max_def losses_of_def Let_def get_team_results_as_max head_map
        three_times streak_as_max_def streak_max_of_def streak_of_def hd_map row_as_max_def
        comp_def)
next
  case False
  then show ?thesis
    by (simp add: losses_max_def losses_of_def Let_def get_team_results_as_max)
qed

lemma teams_of_as_max: "teams_of (map as_max df) = teams_of df"
  by (simp add: teams_of_def as_max_def comp_def)

lemma team_streak_as_max: "team (streak_as_max g) = team g"
  by (simp add: streak_as_max_def)

lemma ajax_form_results:
  "map result (get_team_results ajax_form (str ''Ajax'')) = [W, W, W, L, W]"
  by (simp add: ajax_form_def frame_eval)

lemma ajax_draw_results:
  "map result (get_team_results ajax_draw (str ''Ajax'')) = [W, W, D, L, W]"
  by (simp add: ajax_draw_def frame_eval)

lemma ajax_form_teams: "iteration_of eredivisie_four ajax_form"
  by (auto simp: iteration_of_def teams_of_def eredivisie_four_def ajax_form_def game_def str_def)

lemma ajax_draw_teams: "iteration_of eredivisie_four ajax_draw"
  by (auto simp: iteration_of_def teams_of_def eredivisie_four_def ajax_draw_def game_def str_def)

lemma team_in_wins:
  "t \<in> team ` set (concat (map (wins_of df wc lc) teams)) \<longleftrightarrow>
     t \<in> set teams \<and> wins_of df wc lc t \<noteq> []"
proof
  assume "t \<in> team ` set (concat (map (wins_of df wc lc) teams))"
  then obtain g t' where "t' \<in> set teams" "g \<in> set (wins_of df wc lc t')" "team g = t" by auto
  with team_wins_of [of g df wc lc t'] show "t \<in> set teams \<and> wins_of df wc lc t \<noteq> []" by auto
next
  assume a: "t \<in> set teams \<and> wins_of df wc lc t \<noteq> []"
  then obtain g where g: "g \<in> set (wins_of df wc lc t)" by (cases "wins_of df wc lc t") auto
  with team_wins_of [OF g] a show "t \<in> team ` set (concat (map (wins_of df wc lc) teams))"
    by force
qed

lemma team_in_losses:
  "t \<in> team ` set (concat (map (losses_of df wc lc) teams)) \<longleftrightarrow>
     t \<in> set teams \<and> losses_of df wc lc t \<noteq> []"
proof
  assume "t \<in> team ` set (concat (map (losses_of df wc lc) teams))"
  then obtain g t' where "t' \<in> set teams" "g \<in> set (losses_of df wc lc t')" "team g = t" by auto
  with team_losses_of [of g df wc lc t'] show "t \<in> set teams \<and> losses_of df wc lc t \<noteq> []" by auto
next
  assume a: "t \<in> set teams \<and> losses_of df wc lc t \<noteq> []"
  then obtain g where g: "g \<in> set (losses_of df wc lc t)" by (cases "losses_of df wc lc t") auto
  with team_losses_of [OF g] a show "t \<in> team ` set (concat (map (losses_of df wc lc) teams))"
    by force
qed

lemma team_wins_max: "g \<in> set (wins_max df t) \<Longrightarrow> team g = t"
  by (auto simp: wins_max_def Let_def streak_max_of_def split: if_splits)

lemma team_losses_max: "g \<in> set (losses_max df t) \<Longrightarrow> team g = t"
  by (auto simp: losses_max_def Let_def streak_max_of_def split: if_splits)

lemma wins_losses_max: "wins_max df t = [] \<or> losses_max df t = []"
  by (auto simp: wins_max_def losses_max_def Let_def)

lemma streaks_max_disjoint:
  assumes "find_3_game_streaks teams df = Inr (ws, ls)"
  shows "team ` set ws \<inter> team ` set ls = {}"
proof (rule ccontr)
  assume "team ` set ws \<inter> team ` set ls \<noteq> {}"
  then obtain g g' where g: "g \<in> set ws" "g' \<in> set ls" "team g = team g'" by auto
  from assms have ws: "ws = concat (map (wins_max df) teams)"
    and ls: "ls = concat (map (losses_max df) teams)"
    by (simp_all add: find_3_game_streaks_eq)
  from g ws obtain t where t: "g \<in> set (wins_max df t)" by auto
  from g ls obtain t' where t': "g' \<in> set (losses_max df t')" by auto
  from team_wins_max [OF t] team_losses_max [OF t'] g have "t = t'" by simp
  with t t' wins_losses_max [of df t] show False by auto
qed

lemma wins_of_nonempty:
  assumes "1 \<le> wc"
  shows "wins_of df wc lc t \<noteq> [] \<longleftrightarrow>
           max wc lc \<le> int (length (get_team_results df t))
           \<and> map result (take (nat wc) (get_team_results df t)) = replicate (nat wc) W"
  using assms by (simp add: wins_of_def Let_def head_def)

lemma losses_of_nonempty:
  assumes "1 \<le> lc"
  shows "losses_of df wc lc t \<noteq> [] \<longleftrightarrow>
           max wc lc \<le> int (length (get_team_results df t))
           \<and> map result (take (nat lc) (get_team_results df t)) = replicate (nat lc) L"
  using assms by (simp add: losses_of_def Let_def head_def)

lemma ajax_form_length: "length (get_team_results ajax_form (str ''Ajax'')) = 5"
proof -
  have "length (map result (get_team_results ajax_form (str ''Ajax''))) = 5"
    by (simp only: ajax_form_results) simp
  then show ?thesis by simp
qed

section \<open>Properties of \<open>get_team_results\<close> and of the streak search\<close>

text \<open>
  C4, as amended. For every frame and team name the rows \<open>get_team_results\<close> returns
  are, by date, opponent and location, one \<open>H\<close> row against the away team for each match
  with the team at home and one \<open>A\<close> row against the home team for each match with the
  team away; the number of rows is the number of home matches plus the number of away
  matches, which is the number of matches with the team on either side when no match
  names the team on both sides. On a frame whose scores are at most \<open>2 ^ 53\<close> in
  magnitude the whole rows are these, an \<open>H\<close> row with the scores and expected goals of
  the match as they stand and an \<open>A\<close> row with the two sides exchanged, and the result of
  every row is \<open>W\<close>, \<open>L\<close> or \<open>D\<close> as \<open>team_score\<close> is greater than, less than or equal to
  \<open>opp_score\<close>.
\<close>

theorem get_team_results_rows:
  "mset (map (\<lambda>r. (row_date r, opponent r, location r)) (get_team_results df t)) =
     image_mset (\<lambda>m. (date m, away_team m, H)) (filter_mset (\<lambda>m. home_team m = t) (mset df))
     + image_mset (\<lambda>m. (date m, home_team m, A)) (filter_mset (\<lambda>m. away_team m = t) (mset df))
   \<and> length (get_team_results df t) =
       length (filter (\<lambda>m. home_team m = t) df) + length (filter (\<lambda>m. away_team m = t) df)
   \<and> ((\<forall>m\<in>set df. \<not> (home_team m = t \<and> away_team m = t)) \<longrightarrow>
        length (get_team_results df t)
        = length (filter (\<lambda>m. home_team m = t \<or> away_team m = t) df))
   \<and> (exact_scores df \<longrightarrow>
        mset (get_team_results df t) =
          image_mset home_row (filter_mset (\<lambda>m. home_team m = t) (mset df))
          + image_mset away_row (filter_mset (\<lambda>m. away_team m = t) (mset df))
        \<and> (\<forall>m\<in>set df.
              location (home_row m) = H \<and> opponent (home_row m) = away_team m
              \<and> team_score (home_row m) = home_score m \<and> opp_score (home_row m) = away_score m
              \<and> team_xg (home_row m) = home_xg m \<and> opp_xg (home_row m) = away_xg m
              \<and> location (away_row m) = A \<and> opponent (away_row m) = home_team m
              \<and> team_score (away_row m) = away_score m \<and> opp_score (away_row m) = home_score m
              \<and> team_xg (away_row m) = away_xg m \<and> opp_xg (away_row m) = home_xg m)
        \<and> (\<forall>r\<in>set (get_team_results df t).
              result r = (if team_score r > opp_score r then W
                          else if team_score r < opp_score r then L else D)))"
proof -
  have "mset (map (\<lambda>r. (row_date r, opponent r, location r)) (get_team_results df t))
        = image_mset (\<lambda>r. (row_date r, opponent r, location r)) (mset (get_team_results df t))"
    by simp
  also have "\<dots> =
     image_mset (\<lambda>m. (date m, away_team m, H)) (filter_mset (\<lambda>m. home_team m = t) (mset df))
     + image_mset (\<lambda>m. (date m, home_team m, A)) (filter_mset (\<lambda>m. away_team m = t) (mset df))"
    by (simp add: mset_get_team_results multiset.map_comp comp_def home_row_def away_row_def)
  finally have keys:
    "mset (map (\<lambda>r. (row_date r, opponent r, location r)) (get_team_results df t)) =
     image_mset (\<lambda>m. (date m, away_team m, H)) (filter_mset (\<lambda>m. home_team m = t) (mset df))
     + image_mset (\<lambda>m. (date m, home_team m, A)) (filter_mset (\<lambda>m. away_team m = t) (mset df))" .
  have fields: "\<forall>m\<in>set df.
              location (home_row m) = H \<and> opponent (home_row m) = away_team m
              \<and> team_score (home_row m) = home_score m \<and> opp_score (home_row m) = away_score m
              \<and> team_xg (home_row m) = home_xg m \<and> opp_xg (home_row m) = away_xg m
              \<and> location (away_row m) = A \<and> opponent (away_row m) = home_team m
              \<and> team_score (away_row m) = away_score m \<and> opp_score (away_row m) = home_score m
              \<and> team_xg (away_row m) = away_xg m \<and> opp_xg (away_row m) = home_xg m"
    by (simp add: home_row_def away_row_def)
  have results: "\<forall>r\<in>set (get_team_results df t).
              result r = (if team_score r > opp_score r then W
                          else if team_score r < opp_score r then L else D)"
    using result_get_team_results [of _ df t] by blast
  have either: "length (get_team_results df t)
        = length (filter (\<lambda>m. home_team m = t \<or> away_team m = t) df)"
    if "\<forall>m\<in>set df. \<not> (home_team m = t \<and> away_team m = t)"
    using length_get_team_results [of df t] length_filter_either [OF that] by simp
  show ?thesis
  proof (intro conjI impI)
    show "length (get_team_results df t) =
       length (filter (\<lambda>m. home_team m = t) df) + length (filter (\<lambda>m. away_team m = t) df)"
      by (rule length_get_team_results)
    show "mset (get_team_results df t) =
          image_mset home_row (filter_mset (\<lambda>m. home_team m = t) (mset df))
          + image_mset away_row (filter_mset (\<lambda>m. away_team m = t) (mset df))"
      by (rule mset_get_team_results)
    show "mset (map (\<lambda>r. (row_date r, opponent r, location r)) (get_team_results df t)) =
     image_mset (\<lambda>m. (date m, away_team m, H)) (filter_mset (\<lambda>m. home_team m = t) (mset df))
     + image_mset (\<lambda>m. (date m, home_team m, A)) (filter_mset (\<lambda>m. away_team m = t) (mset df))"
      by (rule keys)
    show "length (get_team_results df t)
        = length (filter (\<lambda>m. home_team m = t \<or> away_team m = t) df)"
      if "\<forall>m\<in>set df. \<not> (home_team m = t \<and> away_team m = t)"
      using that by (rule either)
    show "\<forall>m\<in>set df.
              location (home_row m) = H \<and> opponent (home_row m) = away_team m
              \<and> team_score (home_row m) = home_score m \<and> opp_score (home_row m) = away_score m
              \<and> team_xg (home_row m) = home_xg m \<and> opp_xg (home_row m) = away_xg m
              \<and> location (away_row m) = A \<and> opponent (away_row m) = home_team m
              \<and> team_score (away_row m) = away_score m \<and> opp_score (away_row m) = home_score m
              \<and> team_xg (away_row m) = away_xg m \<and> opp_xg (away_row m) = home_xg m"
      by (rule fields)
    show "\<forall>r\<in>set (get_team_results df t).
              result r = (if team_score r > opp_score r then W
                          else if team_score r < opp_score r then L else D)"
      by (rule results)
  qed
qed

text \<open>The theorem on the five fixtures of \<open>ajax_form\<close>, whose scores are small.\<close>

theorem get_team_results_rows_witness:
  "exact_scores ajax_form
   \<and> length (get_team_results ajax_form (str ''Ajax'')) = 5
   \<and> length (filter (\<lambda>m. home_team m = str ''Ajax'' \<or> away_team m = str ''Ajax'') ajax_form) = 5
   \<and> length (filter (\<lambda>m. home_team m = str ''Ajax'') ajax_form) = 3
   \<and> length (filter (\<lambda>m. away_team m = str ''Ajax'') ajax_form) = 2
   \<and> mset (get_team_results ajax_form (str ''Ajax'')) =
        image_mset home_row (filter_mset (\<lambda>m. home_team m = str ''Ajax'') (mset ajax_form))
        + image_mset away_row (filter_mset (\<lambda>m. away_team m = str ''Ajax'') (mset ajax_form))
   \<and> map location (get_team_results ajax_form (str ''Ajax'')) = [H, A, H, A, H]
   \<and> map result (get_team_results ajax_form (str ''Ajax'')) = [W, W, W, L, W]"
proof -
  note T = get_team_results_rows [of ajax_form "str ''Ajax''"]
  have exact: "exact_scores ajax_form"
    by (simp add: exact_scores_def ajax_form_def game_def)
  have distinct_sides: "\<forall>m\<in>set ajax_form. \<not> (home_team m = str ''Ajax'' \<and> away_team m = str ''Ajax'')"
    by (simp add: ajax_form_def game_def str_def)
  from T [THEN conjunct2, THEN conjunct2, THEN conjunct1, THEN mp, OF distinct_sides]
  have e: "length (get_team_results ajax_form (str ''Ajax''))
        = length (filter (\<lambda>m. home_team m = str ''Ajax'' \<or> away_team m = str ''Ajax'') ajax_form)" .
  have h: "length (filter (\<lambda>m. home_team m = str ''Ajax'') ajax_form) = 3"
    by (simp add: ajax_form_def game_def str_def)
  have a: "length (filter (\<lambda>m. away_team m = str ''Ajax'') ajax_form) = 2"
    by (simp add: ajax_form_def game_def str_def)
  from T [THEN conjunct2, THEN conjunct1] h a
  have n: "length (get_team_results ajax_form (str ''Ajax'')) = 5" by simp
  from T [THEN conjunct2, THEN conjunct2, THEN conjunct2, THEN mp, OF exact, THEN conjunct1]
  have rows: "mset (get_team_results ajax_form (str ''Ajax'')) =
        image_mset home_row (filter_mset (\<lambda>m. home_team m = str ''Ajax'') (mset ajax_form))
        + image_mset away_row (filter_mset (\<lambda>m. away_team m = str ''Ajax'') (mset ajax_form))" .
  have loc: "map location (get_team_results ajax_form (str ''Ajax'')) = [H, A, H, A, H]"
    by (simp add: ajax_form_def frame_eval)
  from exact n e h a rows loc ajax_form_results show ?thesis by simp
qed

text \<open>
  C4 as stated fails on a record with the same name in \<open>home_team\<close> and \<open>away_team\<close>:
  the one match gives two rows, one \<open>H\<close> and one \<open>A\<close>.
\<close>

theorem self_match_listed_twice:
  "length (get_team_results [self_match] (str ''Ajax'')) = 2
   \<and> length (filter (\<lambda>m. home_team m = str ''Ajax'' \<or> away_team m = str ''Ajax'') [self_match]) = 1
   \<and> set (map location (get_team_results [self_match] (str ''Ajax''))) = {H, A}"
  by (auto simp: self_match_def frame_eval)

text \<open>
  C9. In the rows \<open>get_team_results\<close> returns, an earlier row never has a date string
  below that of a later row in the lexicographic order.
\<close>

theorem get_team_results_sorted:
  assumes "i < j" and "j < length (get_team_results df t)"
  shows "row_date (get_team_results df t ! j) \<le> row_date (get_team_results df t ! i)"
proof -
  have "sorted_wrt (\<lambda>a b. row_date b \<le> row_date a) (get_team_results df t)"
    by (simp add: get_team_results_def sorted_sort_values_desc)
  with assms show ?thesis by (simp add: sorted_wrt_iff_nth_less)
qed

text \<open>The theorem on \<open>ajax_form\<close>, first two rows, with the whole date column.\<close>

theorem get_team_results_sorted_witness:
  "(0::nat) < 1 \<and> 1 < length (get_team_results ajax_form (str ''Ajax''))
   \<and> row_date (get_team_results ajax_form (str ''Ajax'') ! 1)
       \<le> row_date (get_team_results ajax_form (str ''Ajax'') ! 0)
   \<and> map row_date (get_team_results ajax_form (str ''Ajax''))
       = [str ''2024-05-05'', str ''2024-04-28'', str ''2024-04-21'', str ''2024-04-14'',
          str ''2024-04-07'']"
proof -
  have 1: "(0::nat) < 1" by simp
  have 2: "1 < length (get_team_results ajax_form (str ''Ajax''))"
    by (simp add: ajax_form_length)
  have 3: "map row_date (get_team_results ajax_form (str ''Ajax''))
       = [str ''2024-05-05'', str ''2024-04-28'', str ''2024-04-21'', str ''2024-04-14'',
          str ''2024-04-07'']"
    by (simp add: ajax_form_def frame_eval)
  from get_team_results_sorted [OF 1 2] 1 2 3 show ?thesis by blast
qed

text \<open>
  C3, as amended. Let the loop visit the teams of the frame and let the loss length be
  at least 1. With a loss length of at most 5, a team whose results, most recent first,
  are \<open>W W W L W\<close> is put in the win list of \<open>find_game_streaks\<close> with win length 3,
  with its first three rows as \<open>games\<close> in every entry it has there, and is not in the
  loss list. The same holds for a team with \<open>W W W W W\<close>: a longer streak qualifies,
  and its entry still carries the first three rows only. With \<open>W W D L W\<close> the team is
  in neither list. With a loss length above 5 the team with \<open>W W W L W\<close> has fewer
  results than the larger of the two lengths, is passed over, and is in neither list.
\<close>

theorem leading_three_wins:
  assumes "iteration_of teams df" and "1 \<le> lc"
  shows "(map result (get_team_results df t) = [W, W, W, L, W] \<and> lc \<le> 5 \<longrightarrow>
            (\<exists>ws ls. find_game_streaks teams df 3 lc = Inr (ws, ls)
               \<and> (\<exists>g\<in>set ws. team g = t \<and> games g = take 3 (get_team_results df t))
               \<and> (\<forall>g\<in>set ws. team g = t \<longrightarrow> games g = take 3 (get_team_results df t))
               \<and> t \<notin> team ` set ls))
       \<and> (map result (get_team_results df t) = [W, W, W, W, W] \<and> lc \<le> 5 \<longrightarrow>
            (\<exists>ws ls. find_game_streaks teams df 3 lc = Inr (ws, ls)
               \<and> (\<exists>g\<in>set ws. team g = t \<and> games g = take 3 (get_team_results df t))
               \<and> (\<forall>g\<in>set ws. team g = t \<longrightarrow> games g = take 3 (get_team_results df t))
               \<and> t \<notin> team ` set ls))
       \<and> (map result (get_team_results df t) = [W, W, D, L, W] \<longrightarrow>
            (\<exists>ws ls. find_game_streaks teams df 3 lc = Inr (ws, ls)
               \<and> t \<notin> team ` set ws \<and> t \<notin> team ` set ls))
       \<and> (map result (get_team_results df t) = [W, W, W, L, W] \<and> 5 < lc \<longrightarrow>
            (\<exists>ws ls. find_game_streaks teams df 3 lc = Inr (ws, ls)
               \<and> t \<notin> team ` set ws \<and> t \<notin> team ` set ls))"
proof -
  let ?R = "get_team_results df t"
  let ?ws = "concat (map (wins_of df 3 lc) teams)"
  let ?ls = "concat (map (losses_of df 3 lc) teams)"
  let ?in_wins = "\<exists>ws ls. find_game_streaks teams df 3 lc = Inr (ws, ls)
               \<and> (\<exists>g\<in>set ws. team g = t \<and> games g = take 3 ?R)
               \<and> (\<forall>g\<in>set ws. team g = t \<longrightarrow> games g = take 3 ?R)
               \<and> t \<notin> team ` set ls"
  let ?in_neither = "\<exists>ws ls. find_game_streaks teams df 3 lc = Inr (ws, ls)
               \<and> t \<notin> team ` set ws \<and> t \<notin> team ` set ls"
  have run: "find_game_streaks teams df 3 lc = Inr (?ws, ?ls)"
    using assms(2) by (simp add: find_game_streaks_positive)
  have first_W: "losses_of df 3 lc t = []" if "?R \<noteq> []" "result (hd ?R) = W"
  proof (rule ccontr)
    assume "losses_of df 3 lc t \<noteq> []"
    then have len: "lc \<le> int (length ?R)" and all: "map result (head ?R lc) = replicate (nat lc) L"
      by (auto simp: losses_of_def Let_def split: if_splits)
    from head_nonempty(2) [OF assms(2) len]
    have "py_index (head ?R lc) 0 = Inr (hd (head ?R lc))" by (rule py_index_0)
    from window_first [OF this all] that show False by simp
  qed
  have three: ?in_wins
    if r: "take 3 (map result ?R) = [W, W, W]" and len: "length ?R = 5" and lc: "lc \<le> 5"
  proof -
    from len have ne: "?R \<noteq> []" by auto
    then have "t \<in> teams_of df" by (rule results_in_teams)
    with assms(1) have t: "t \<in> set teams" by (simp add: iteration_of_def)
    have h3: "head ?R 3 = take 3 ?R" by (simp add: head_def)
    from r have "map result (take 3 ?R) = [W, W, W]" by (simp add: take_map)
    with len lc h3 have w: "wins_of df 3 lc t = [streak_of t (take 3 ?R)]"
      by (simp add: wins_of_def Let_def three_times)
    from r ne have "result (hd ?R) = W" by (cases ?R) auto
    with ne have l: "losses_of df 3 lc t = []" by (rule first_W)
    have a: "\<exists>g\<in>set ?ws. team g = t \<and> games g = take 3 ?R"
    proof (rule bexI [of _ "streak_of t (take 3 ?R)"])
      show "team (streak_of t (take 3 ?R)) = t
            \<and> games (streak_of t (take 3 ?R)) = take 3 ?R"
        by (simp add: streak_of_def)
      from t w show "streak_of t (take 3 ?R) \<in> set ?ws" by force
    qed
    have b: "\<forall>g\<in>set ?ws. team g = t \<longrightarrow> games g = take 3 ?R"
    proof (intro ballI impI)
      fix g assume "g \<in> set ?ws" and tg: "team g = t"
      then obtain t' where "t' \<in> set teams" and g: "g \<in> set (wins_of df 3 lc t')" by auto
      with team_wins_of [OF g] tg have "g \<in> set (wins_of df 3 lc t)" by simp
      with w show "games g = take 3 ?R" by (simp add: streak_of_def)
    qed
    have c: "t \<notin> team ` set ?ls" using l team_in_losses [of t df 3 lc teams] by blast
    from run a b c show ?thesis by blast
  qed
  have length_5: "length ?R = 5" if "map result ?R = [a, b, c, d, e]" for a b c d e
  proof -
    from that have "length (map result ?R) = 5" by simp
    then show ?thesis by simp
  qed
  have part2: ?in_neither if r: "map result ?R = [W, W, D, L, W]"
  proof -
    from r have ne: "?R \<noteq> []" by auto
    have "map result (take 3 ?R) = take 3 (map result ?R)" by (simp add: take_map)
    with r have "map result (head ?R 3) = [W, W, D]" by (simp add: head_def)
    then have w: "wins_of df 3 lc t = []" by (simp add: wins_of_def Let_def three_times)
    from r ne have "result (hd ?R) = W" by (cases ?R) auto
    with ne have l: "losses_of df 3 lc t = []" by (rule first_W)
    from w l have "t \<notin> team ` set ?ws \<and> t \<notin> team ` set ?ls"
      using team_in_wins [of t df 3 lc teams] team_in_losses [of t df 3 lc teams] by blast
    with run show ?thesis by blast
  qed
  have part3: ?in_neither if r: "map result ?R = [W, W, W, L, W]" and lc: "5 < lc"
  proof -
    from length_5 [OF r] lc have "\<not> max 3 lc \<le> int (length ?R)" by simp
    then have "wins_of df 3 lc t = []" and "losses_of df 3 lc t = []"
      by (simp_all add: wins_of_def losses_of_def Let_def del: max.bounded_iff)
    then have "t \<notin> team ` set ?ws \<and> t \<notin> team ` set ?ls"
      using team_in_wins [of t df 3 lc teams] team_in_losses [of t df 3 lc teams] by blast
    with run show ?thesis by blast
  qed
  show ?thesis
  proof (intro conjI impI)
    assume h: "map result ?R = [W, W, W, L, W] \<and> 5 < lc"
    from part3 [OF h [THEN conjunct1] h [THEN conjunct2]] show ?in_neither .
  next
    assume h: "map result ?R = [W, W, W, L, W] \<and> lc \<le> 5"
    then have "take 3 (map result ?R) = [W, W, W]" by simp
    from three [OF this length_5 [OF h [THEN conjunct1]] h [THEN conjunct2]]
    show ?in_wins .
  next
    assume h: "map result ?R = [W, W, W, W, W] \<and> lc \<le> 5"
    then have "take 3 (map result ?R) = [W, W, W]" by simp
    from three [OF this length_5 [OF h [THEN conjunct1]] h [THEN conjunct2]]
    show ?in_wins .
  next
    assume "map result ?R = [W, W, D, L, W]"
    then show ?in_neither by (rule part2)
  qed
qed

text \<open>The theorem on \<open>ajax_form\<close> and \<open>ajax_draw\<close> with both lengths 3.\<close>

theorem leading_three_wins_witness:
  "map result (get_team_results ajax_form (str ''Ajax'')) = [W, W, W, L, W]
   \<and> (\<exists>ws ls. find_game_streaks eredivisie_four ajax_form 3 3 = Inr (ws, ls)
         \<and> (\<exists>g\<in>set ws. team g = str ''Ajax''
                \<and> games g = take 3 (get_team_results ajax_form (str ''Ajax'')))
         \<and> str ''Ajax'' \<notin> team ` set ls)
   \<and> map result (get_team_results ajax_draw (str ''Ajax'')) = [W, W, D, L, W]
   \<and> (\<exists>ws ls. find_game_streaks eredivisie_four ajax_draw 3 3 = Inr (ws, ls)
         \<and> str ''Ajax'' \<notin> team ` set ws \<and> str ''Ajax'' \<notin> team ` set ls)
   \<and> (\<exists>ws ls. find_game_streaks eredivisie_four ajax_form 3 6 = Inr (ws, ls)
         \<and> str ''Ajax'' \<notin> team ` set ws \<and> str ''Ajax'' \<notin> team ` set ls)"
proof -
  have one: "(1::int) \<le> 3" by simp
  have five: "(3::int) \<le> 5" by simp
  note F = leading_three_wins [OF ajax_form_teams one, of "str ''Ajax''", THEN conjunct1,
      rule_format, OF conjI, OF ajax_form_results five]
  note G = leading_three_wins [OF ajax_draw_teams one, of "str ''Ajax''", THEN conjunct2,
      THEN conjunct2, THEN conjunct1, rule_format, OF ajax_draw_results]
  have six: "(1::int) \<le> 6" and above: "(5::int) < 6" by simp_all
  note K = leading_three_wins [OF ajax_form_teams six, of "str ''Ajax''", THEN conjunct2,
      THEN conjunct2, THEN conjunct2, rule_format, OF conjI, OF ajax_form_results above]
  from F have "\<exists>ws ls. find_game_streaks eredivisie_four ajax_form 3 3 = Inr (ws, ls)
         \<and> (\<exists>g\<in>set ws. team g = str ''Ajax''
                \<and> games g = take 3 (get_team_results ajax_form (str ''Ajax'')))
         \<and> str ''Ajax'' \<notin> team ` set ls" by blast
  with G K ajax_form_results ajax_draw_results show ?thesis by (intro conjI)
qed

text \<open>
  C3 as stated fails when the loss length exceeds the number of results: with win length
  3 and loss length 6, which the sidebar allows, the team with \<open>W W W L W\<close> has
  \<open>5 < max(3, 6)\<close> results and is passed over by the test on the number of results; here
  both lists are empty.
\<close>

theorem long_loss_window_skips_team:
  "map result (get_team_results ajax_form (str ''Ajax'')) = [W, W, W, L, W]
   \<and> find_game_streaks eredivisie_four ajax_form 3 6 = Inr ([], [])"
proof -
  have short: "length (get_team_results ajax_form t) < 6"
    if "t \<in> set eredivisie_four" for t
    using that
    by (auto simp: eredivisie_four_def length_get_team_results ajax_form_def game_def str_def)
  have "wins_of ajax_form 3 6 t = []" and "losses_of ajax_form 3 6 t = []"
    if "t \<in> set eredivisie_four" for t
    using short [OF that] by (simp_all add: wins_of_def losses_of_def Let_def)
  then have "concat (map (wins_of ajax_form 3 6) eredivisie_four) = []"
    and "concat (map (losses_of ajax_form 3 6) eredivisie_four) = []"
    by simp_all
  then have "find_game_streaks eredivisie_four ajax_form 3 6 = Inr ([], [])"
    by (simp add: find_game_streaks_positive)
  with ajax_form_results show ?thesis by simp
qed

text \<open>
  C7, as amended. Whatever the two lengths, no team is in both lists
  \<open>find_game_streaks\<close> returns, and none in both lists of \<open>find_3_game_streaks\<close>. For
  positive lengths \<open>find_game_streaks\<close> returns, and each list is decided by its own
  window alone: a visited team is in the win list exactly when it has at least
  \<open>max\<close> of the two lengths results and its first \<open>win_streak_count\<close> results are all
  \<open>W\<close>, and in the loss list exactly when it has that many results and its first
  \<open>loss_streak_count\<close> results are all \<open>L\<close>.
\<close>

theorem streak_groups_exclusive:
  "(find_game_streaks teams df wc lc = Inr (ws, ls) \<longrightarrow> team ` set ws \<inter> team ` set ls = {})
   \<and> (find_3_game_streaks teams dfm = Inr (ws', ls') \<longrightarrow> team ` set ws' \<inter> team ` set ls' = {})
   \<and> (1 \<le> wc \<and> 1 \<le> lc \<and> t \<in> set teams \<longrightarrow>
        (\<exists>ws ls. find_game_streaks teams df wc lc = Inr (ws, ls)
           \<and> (t \<in> team ` set ws \<longleftrightarrow>
                 max wc lc \<le> int (length (get_team_results df t))
                 \<and> map result (take (nat wc) (get_team_results df t)) = replicate (nat wc) W)
           \<and> (t \<in> team ` set ls \<longleftrightarrow>
                 max wc lc \<le> int (length (get_team_results df t))
                 \<and> map result (take (nat lc) (get_team_results df t)) = replicate (nat lc) L)))"
proof (intro conjI impI)
  assume "find_game_streaks teams df wc lc = Inr (ws, ls)"
  then show "team ` set ws \<inter> team ` set ls = {}" by (rule streaks_disjoint)
next
  assume "find_3_game_streaks teams dfm = Inr (ws', ls')"
  then show "team ` set ws' \<inter> team ` set ls' = {}" by (rule streaks_max_disjoint)
next
  assume h: "1 \<le> wc \<and> 1 \<le> lc \<and> t \<in> set teams"
  let ?ws = "concat (map (wins_of df wc lc) teams)"
  let ?ls = "concat (map (losses_of df wc lc) teams)"
  from h have run: "find_game_streaks teams df wc lc = Inr (?ws, ?ls)"
    by (simp add: find_game_streaks_positive)
  from h have a: "t \<in> team ` set ?ws \<longleftrightarrow>
                 max wc lc \<le> int (length (get_team_results df t))
                 \<and> map result (take (nat wc) (get_team_results df t)) = replicate (nat wc) W"
    using team_in_wins [of t df wc lc teams] wins_of_nonempty [of wc df lc t] by blast
  from h have b: "t \<in> team ` set ?ls \<longleftrightarrow>
                 max wc lc \<le> int (length (get_team_results df t))
                 \<and> map result (take (nat lc) (get_team_results df t)) = replicate (nat lc) L"
    using team_in_losses [of t df wc lc teams] losses_of_nonempty [of lc df wc t] by blast
  from run a b
  show "\<exists>ws ls. find_game_streaks teams df wc lc = Inr (ws, ls)
           \<and> (t \<in> team ` set ws \<longleftrightarrow>
                 max wc lc \<le> int (length (get_team_results df t))
                 \<and> map result (take (nat wc) (get_team_results df t)) = replicate (nat wc) W)
           \<and> (t \<in> team ` set ls \<longleftrightarrow>
                 max wc lc \<le> int (length (get_team_results df t))
                 \<and> map result (take (nat lc) (get_team_results df t)) = replicate (nat lc) L)"
    by (intro exI [of _ ?ws] exI [of _ ?ls] conjI)
qed

text \<open>The theorem on \<open>ajax_form\<close> with win length 2 and loss length 3.\<close>

theorem streak_groups_exclusive_witness:
  "\<exists>ws ls. find_game_streaks eredivisie_four ajax_form 2 3 = Inr (ws, ls)
      \<and> str ''Ajax'' \<in> team ` set ws \<and> str ''Ajax'' \<notin> team ` set ls
      \<and> team ` set ws \<inter> team ` set ls = {}"
proof -
  have t: "(1::int) \<le> 2 \<and> (1::int) \<le> 3 \<and> str ''Ajax'' \<in> set eredivisie_four"
    by (simp add: eredivisie_four_def)
  from streak_groups_exclusive [where teams = eredivisie_four and df = ajax_form and wc = 2
      and lc = 3 and t = "str ''Ajax''", THEN conjunct2, THEN conjunct2, rule_format, OF t]
  obtain ws ls where run: "find_game_streaks eredivisie_four ajax_form 2 3 = Inr (ws, ls)"
    and w: "str ''Ajax'' \<in> team ` set ws \<longleftrightarrow>
              max 2 3 \<le> int (length (get_team_results ajax_form (str ''Ajax'')))
              \<and> map result (take (nat 2) (get_team_results ajax_form (str ''Ajax'')))
                  = replicate (nat 2) W"
    and l: "str ''Ajax'' \<in> team ` set ls \<longleftrightarrow>
              max 2 3 \<le> int (length (get_team_results ajax_form (str ''Ajax'')))
              \<and> map result (take (nat 3) (get_team_results ajax_form (str ''Ajax'')))
                  = replicate (nat 3) L"
    by blast
  have len: "length (get_team_results ajax_form (str ''Ajax'')) = 5"
    by (rule ajax_form_length)
  have "map result (take 2 (get_team_results ajax_form (str ''Ajax'')))
        = take 2 (map result (get_team_results ajax_form (str ''Ajax'')))" by (simp add: take_map)
  then have w2: "map result (take 2 (get_team_results ajax_form (str ''Ajax''))) = [W, W]"
    by (simp add: ajax_form_results)
  have "map result (take 3 (get_team_results ajax_form (str ''Ajax'')))
        = take 3 (map result (get_team_results ajax_form (str ''Ajax'')))" by (simp add: take_map)
  then have w3: "map result (take 3 (get_team_results ajax_form (str ''Ajax''))) = [W, W, W]"
    by (simp add: ajax_form_results)
  from w len w2 have a: "str ''Ajax'' \<in> team ` set ws" by (simp add: numeral_2_eq_2)
  from l w3 have b: "str ''Ajax'' \<notin> team ` set ls" by (simp add: three_times)
  from streak_groups_exclusive [where teams = eredivisie_four and df = ajax_form and wc = 2
      and lc = 3 and ws = ws and ls = ls, THEN conjunct1] run
  have c: "team ` set ws \<inter> team ` set ls = {}" by blast
  from run a b c show ?thesis by blast
qed

text \<open>
  C7 as stated fails: there is no input, with different lengths or equal ones, for which
  a team is in both lists. Both windows start at the most recent result, which cannot be
  \<open>W\<close> and \<open>L\<close>; and a window of length 0 or less makes \<open>iloc[0]\<close> raise.
\<close>

theorem no_team_in_both_groups:
  "\<not> (\<exists>teams df wc lc ws ls t.
        wc \<noteq> lc \<and> find_game_streaks teams df wc lc = Inr (ws, ls)
        \<and> t \<in> team ` set ws \<and> t \<in> team ` set ls)"
proof
  assume "\<exists>teams df wc lc ws ls t.
        wc \<noteq> lc \<and> find_game_streaks teams df wc lc = Inr (ws, ls)
        \<and> t \<in> team ` set ws \<and> t \<in> team ` set ls"
  then obtain teams df wc lc ws ls t where
    "find_game_streaks teams df wc lc = Inr (ws, ls)" "t \<in> team ` set ws" "t \<in> team ` set ls"
    by blast
  with streaks_disjoint [of teams df wc lc ws ls] show False by blast
qed

text \<open>
  C10. On the same matches, visited as a Python set in whatever order each script meets,
  \<open>find_game_streaks\<close> of \<open>app.py\<close> with both lengths 3 and \<open>find_3_game_streaks\<close> of
  \<open>max.py\<close> both return; their win lists name the same teams, their loss lists name the
  same teams, and the entries are the same up to the league columns, with the same three
  rows per team. With the same order of visit the lists agree entry by entry.
\<close>

theorem streaks_app_max_agree:
  assumes "iteration_of teams df" and "iteration_of teams' (map as_max df)"
  shows "\<exists>ws ls ws' ls'.
           find_game_streaks teams df 3 3 = Inr (ws, ls)
           \<and> find_3_game_streaks teams' (map as_max df) = Inr (ws', ls')
           \<and> team ` set ws' = team ` set ws \<and> team ` set ls' = team ` set ls
           \<and> set ws' = streak_as_max ` set ws \<and> set ls' = streak_as_max ` set ls
           \<and> (teams' = teams \<longrightarrow> ws' = map streak_as_max ws \<and> ls' = map streak_as_max ls)"
proof -
  let ?ws = "concat (map (wins_of df 3 3) teams)"
  let ?ls = "concat (map (losses_of df 3 3) teams)"
  let ?ws' = "concat (map (wins_max (map as_max df)) teams')"
  let ?ls' = "concat (map (losses_max (map as_max df)) teams')"
  from assms have st: "set teams' = set teams"
    by (simp add: iteration_of_def teams_of_as_max)
  have app: "find_game_streaks teams df 3 3 = Inr (?ws, ?ls)"
    by (simp add: find_game_streaks_positive)
  have mx: "find_3_game_streaks teams' (map as_max df) = Inr (?ws', ?ls')"
    by (rule find_3_game_streaks_eq)
  have w: "set ?ws' = streak_as_max ` set ?ws"
    using st by (auto simp: wins_as_max)
  have l: "set ?ls' = streak_as_max ` set ?ls"
    using st by (auto simp: losses_as_max)
  have tw: "team ` set ?ws' = team ` set ?ws"
    unfolding w by (simp add: image_image team_streak_as_max)
  have tl: "team ` set ?ls' = team ` set ?ls"
    unfolding l by (simp add: image_image team_streak_as_max)
  have same: "teams' = teams \<longrightarrow> ?ws' = map streak_as_max ?ws \<and> ?ls' = map streak_as_max ?ls"
  proof -
    have "wins_max (map as_max df) = (\<lambda>t. map streak_as_max (wins_of df 3 3 t))"
      by (rule ext) (rule wins_as_max)
    moreover have "losses_max (map as_max df) = (\<lambda>t. map streak_as_max (losses_of df 3 3 t))"
      by (rule ext) (rule losses_as_max)
    ultimately show ?thesis by (simp add: map_concat comp_def)
  qed
  from app mx w l tw tl same show ?thesis by blast
qed

text \<open>The theorem on \<open>ajax_form\<close>, with the same order of visit in both scripts.\<close>

theorem streaks_app_max_agree_witness:
  "\<exists>ws ls ws' ls'.
     find_game_streaks eredivisie_four ajax_form 3 3 = Inr (ws, ls)
     \<and> find_3_game_streaks eredivisie_four (map as_max ajax_form) = Inr (ws', ls')
     \<and> team ` set ws' = team ` set ws \<and> team ` set ls' = team ` set ls
     \<and> set ws' = streak_as_max ` set ws \<and> set ls' = streak_as_max ` set ls
     \<and> ws' = map streak_as_max ws \<and> ls' = map streak_as_max ls"
proof -
  have m: "iteration_of eredivisie_four (map as_max ajax_form)"
    using ajax_form_teams by (simp add: iteration_of_def teams_of_as_max)
  from streaks_app_max_agree [OF ajax_form_teams m]
  obtain ws ls ws' ls' where
    "find_game_streaks eredivisie_four ajax_form 3 3 = Inr (ws, ls)"
    "find_3_game_streaks eredivisie_four (map as_max ajax_form) = Inr (ws', ls')"
    "team ` set ws' = team ` set ws" "team ` set ls' = team ` set ls"
    "set ws' = streak_as_max ` set ws" "set ls' = streak_as_max ` set ls"
    "eredivisie_four = eredivisie_four \<longrightarrow> ws' = map streak_as_max ws \<and> ls' = map streak_as_max ls"
    by (elim exE conjE)
  then show ?thesis by (intro exI [of _ ws] exI [of _ ls] exI [of _ ws'] exI [of _ ls']) simp

qed

end
